theory Spec2Isabelle
  imports Main "HOL-Library.Word"
begin

unbundle bit_operations_syntax

section \<open>Data model\<close>

text \<open>
  A shallow embedding of the LC-3 assembler: tokens (token.hpp), operands (operand.hpp),
  instructions (instruction.hpp, instruction.cpp), the identifier classification of the
  lexer (parser.cpp), the assembler passes (assembler.hpp, assembler.cpp, solution.cpp)
  and the output loop of main.cpp.

  Machine integers are words: \<open>std::uint8_t\<close> is \<open>8 word\<close>, \<open>std::uint16_t\<close> and
  \<open>std::int16_t\<close> are \<open>16 word\<close> (the signed reading is \<open>sint\<close>), \<open>std::size_t\<close> is
  \<open>64 word\<close>. A \<open>Token\<close> is a kind and a pair of pointers into the source buffer; the
  model keeps the kind and the slice \<open>[begin, end)\<close> the pointers delimit.
\<close>

type_synonym u8 = "8 word"
type_synonym u16 = "16 word"
type_synonym i16 = "16 word"

datatype TokenKind =
  Token_Unknown | Token_EOL | Token_End | Token_Opcode | Token_Label | Token_Register
| Token_Pseudo | Token_Immediate | Token_Number | Token_String | Token_Comma

record Token =
  kind :: TokenKind
  content :: string

datatype OperandType = Register | Immediate | Number | Label | StringLiteral

text \<open>
  \<open>Operand\<close> is a tagged union in the source: \<open>type_\<close> says which member of the union
  is live. Each constructor carries the live member.
\<close>

datatype Operand =
  RegisterOperand u8
| ImmediateOperand i16
| NumberOperand i16
| LabelOperand string
| StringLiteralOperand string

fun operand_type :: "Operand \<Rightarrow> OperandType" where
  "operand_type (RegisterOperand r) = Register"
| "operand_type (ImmediateOperand v) = Immediate"
| "operand_type (NumberOperand v) = Number"
| "operand_type (LabelOperand l) = Label"
| "operand_type (StringLiteralOperand s) = StringLiteral"

text \<open>
  What stops a run without a result: a failed \<open>assert\<close> of an accessor (with the
  assertions compiled out, the read of a dead union member), a read outside a vector or
  a string, and the \<open>std::length_error\<close> of \<open>std::vector::resize\<close>.
\<close>

datatype fault = AssertionFailed | OutOfBounds | LengthError

definition and_then :: "fault + 'a \<Rightarrow> ('a \<Rightarrow> fault + 'b) \<Rightarrow> fault + 'b" where
  "and_then r f = (case r of Inl e \<Rightarrow> Inl e | Inr x \<Rightarrow> f x)"

fun register_id :: "Operand \<Rightarrow> fault + u8" where
  "register_id (RegisterOperand r) = Inr r"
| "register_id _ = Inl AssertionFailed"

fun immediate_value :: "Operand \<Rightarrow> fault + i16" where
  "immediate_value (ImmediateOperand v) = Inr v"
| "immediate_value _ = Inl AssertionFailed"

fun regular_decimal :: "Operand \<Rightarrow> fault + i16" where
  "regular_decimal (NumberOperand v) = Inr v"
| "regular_decimal _ = Inl AssertionFailed"

fun label :: "Operand \<Rightarrow> fault + string" where
  "label (LabelOperand l) = Inr l"
| "label _ = Inl AssertionFailed"

fun string_literal :: "Operand \<Rightarrow> fault + string" where
  "string_literal (StringLiteralOperand s) = Inr s"
| "string_literal _ = Inl AssertionFailed"

definition from_register :: "u8 \<Rightarrow> Operand" where
  "from_register reg_id = RegisterOperand reg_id"

definition from_integer :: "bool \<Rightarrow> i16 \<Rightarrow> Operand" where
  "from_integer is_immediate imm =
     (if is_immediate then ImmediateOperand imm else NumberOperand imm)"

definition from_label :: "string \<Rightarrow> Operand" where
  "from_label s = LabelOperand s"

text \<open>\<open>from_string_literal\<close> drops the quotes: \<open>++begin\<close>, \<open>--end\<close>.\<close>

definition from_string_literal :: "string \<Rightarrow> fault + Operand" where
  "from_string_literal s =
     (if length s \<ge> 2 then Inr (StringLiteralOperand (butlast (tl s)))
      else Inl AssertionFailed)"

text \<open>
  The enumerators of \<open>Instruction::Opcode\<close> come from \<open>assembler/opcode.def\<close>, named
  here as the C binding names them (\<open>name##Op\<close>).
\<close>

datatype Opcode =
  UnknownOp
| ADDOp | ANDOp | BROp | BRnOp | BRzOp | BRpOp | BRzpOp | BRnpOp | BRnzOp | BRnzpOp
| JMPOp | JSROp | JSRROp | LDOp | LDIOp | LDROp | LEAOp | NOTOp | RETOp | RTIOp
| STOp | STIOp | STROp | TRAPOp | GETCOp | OUTOp | PUTSOp | INOp | PUTSPOp | HALTOp
| ORIGOp | FILLOp | BLKWOp | STRINGZOp | ENDOp

datatype OperandConstructionErrorType =
  NoError | InvalidTokenKind | InvalidNumber | IntegerOverflow | MissingQuote

record Instruction =
  get_label :: string
  get_operands :: "Operand list"
  get_opcode :: Opcode
  get_address :: u16

definition has_label :: "Instruction \<Rightarrow> bool" where
  "has_label instr = (get_label instr \<noteq> [])"

definition operand_size :: "Instruction \<Rightarrow> nat" where
  "operand_size instr = length (get_operands instr)"

definition get_operand :: "Instruction \<Rightarrow> nat \<Rightarrow> fault + Operand" where
  "get_operand instr index =
     (if index < length (get_operands instr) then Inr (get_operands instr ! index)
      else Inl OutOfBounds)"

definition set_address :: "Instruction \<Rightarrow> u16 \<Rightarrow> Instruction" where
  "set_address instr a = instr\<lparr>get_address := a\<rparr>"

definition push_operand :: "Instruction \<Rightarrow> Operand \<Rightarrow> Instruction" where
  "push_operand instr operand = instr\<lparr>get_operands := get_operands instr @ [operand]\<rparr>"

section \<open>Operand construction\<close>

subsection \<open>\<open>std::stoll\<close>\<close>

text \<open>
  \<open>std::stoll (str, nullptr, base)\<close> is \<open>strtoll\<close>: it skips leading white space, reads
  an optional sign, for base 16 an optional \<open>0x\<close> or \<open>0X\<close>, then the longest run of
  digits of the base; it throws \<open>std::invalid_argument\<close> when no digit was read and
  \<open>std::out_of_range\<close> when the value does not fit \<open>long long\<close>.
\<close>

datatype stoll_exception = invalid_argument | out_of_range

definition isspace_c :: "char \<Rightarrow> bool" where
  "isspace_c ch = (ch \<in> set [CHR '' '', CHR 0x09, CHR 0x0A, CHR 0x0B, CHR 0x0C, CHR 0x0D])"

definition digit_value :: "char \<Rightarrow> nat option" where
  "digit_value ch =
     (let c = (of_char ch :: nat) in
      if 48 \<le> c \<and> c \<le> 57 then Some (c - 48)
      else if 97 \<le> c \<and> c \<le> 122 then Some (c - 87)
      else if 65 \<le> c \<and> c \<le> 90 then Some (c - 55)
      else None)"

fun strtoll_digits :: "nat \<Rightarrow> string \<Rightarrow> nat \<times> nat \<Rightarrow> nat \<times> nat" where
  "strtoll_digits base [] (acc, n) = (acc, n)"
| "strtoll_digits base (ch # s) (acc, n) =
     (case digit_value ch of
        None \<Rightarrow> (acc, n)
      | Some d \<Rightarrow> if d < base then strtoll_digits base s (acc * base + d, Suc n) else (acc, n))"

definition has_hex_prefix :: "string \<Rightarrow> bool" where
  "has_hex_prefix s =
     (case s of
        c0 # c1 # c2 # _ \<Rightarrow>
          c0 = CHR ''0'' \<and> (c1 = CHR ''x'' \<or> c1 = CHR ''X'')
          \<and> (case digit_value c2 of None \<Rightarrow> False | Some d \<Rightarrow> d < 16)
      | _ \<Rightarrow> False)"

definition stoll :: "string \<Rightarrow> nat \<Rightarrow> stoll_exception + int" where
  "stoll str base =
     (let s1 = dropWhile isspace_c str;
          negative = (case s1 of [] \<Rightarrow> False | c # _ \<Rightarrow> c = CHR ''-'');
          s2 = (case s1 of [] \<Rightarrow> []
                | c # r \<Rightarrow> if c = CHR ''-'' \<or> c = CHR ''+'' then r else s1);
          s3 = (if base = 16 \<and> has_hex_prefix s2 then drop 2 s2 else s2);
          r = strtoll_digits base s3 (0, 0);
          v = (if negative then - int (fst r) else int (fst r))
      in if snd r = 0 then Inl invalid_argument
         else if v < - (2 ^ 63) \<or> v > 2 ^ 63 - 1 then Inl out_of_range
         else Inr v)"

subsection \<open>\<open>string_to_integer\<close> (solution.cpp) and \<open>is_valid_number\<close> (instruction.cpp)\<close>

text \<open>
  \<open>string_to_integer\<close> returns the value and sets \<open>*ok\<close>; the model returns the pair
  \<open>(ok, value)\<close>. Every exception of \<open>std::stoll\<close> is caught and becomes \<open>ok = false\<close>.
  \<open>content[0]\<close> of an empty \<open>std::string\<close> is the terminating NUL.
\<close>

definition string_to_integer :: "string \<Rightarrow> bool \<times> i16" where
  "string_to_integer content' =
     (let c0 = (case content' of [] \<Rightarrow> CHR 0x00 | c # _ \<Rightarrow> c);
          pos = (if c0 = CHR ''#'' \<or> c0 = CHR ''x'' \<or> c0 = CHR ''b'' then 1 else 0 :: nat);
          base = (if c0 = CHR ''x'' then 16 else if c0 = CHR ''b'' then 2 else 10 :: nat)
      in case stoll (drop pos content') base of
           Inl e \<Rightarrow> (False, 0)
         | Inr v \<Rightarrow> if v > 65535 \<or> v < - 32768 then (False, 0) else (True, word_of_int v))"

definition is_valid_number :: "string \<Rightarrow> fault + bool" where
  "is_valid_number token_content =
     (case token_content of
        [] \<Rightarrow> Inl OutOfBounds
      | c # rest \<Rightarrow>
          if c = CHR ''#'' \<or> c = CHR ''x'' \<or> c = CHR ''b'' then
            (if length token_content = 1 then Inr False
             else if length token_content = 2
               then Inr (token_content ! 1 \<noteq> CHR ''+'' \<and> token_content ! 1 \<noteq> CHR ''-'')
             else Inr True)
          else if c = CHR ''+'' \<or> c = CHR ''-'' then Inr (length token_content > 1)
          else Inr True)"

subsection \<open>\<open>Instruction::add_operand\<close>\<close>

text \<open>
  The method returns the error type and, on success, has pushed the operand; the model
  returns the error type with the instruction after the call.
\<close>

definition add_operand ::
  "Instruction \<Rightarrow> Token \<Rightarrow> fault + (OperandConstructionErrorType \<times> Instruction)" where
  "add_operand instr token =
     (case kind token of
        Token_Register \<Rightarrow>
          (if 1 < length (content token)
           then Inr (NoError, push_operand instr
                  (from_register (word_of_int (int (of_char (content token ! 1)) - 48))))
           else Inl OutOfBounds)
      | Token_Label \<Rightarrow> Inr (NoError, push_operand instr (from_label (content token)))
      | Token_Immediate \<Rightarrow>
          and_then (is_valid_number (content token)) (\<lambda>valid.
            if \<not> valid then Inr (InvalidNumber, instr)
            else let r = string_to_integer (content token) in
              if fst r then Inr (NoError, push_operand instr (from_integer True (snd r)))
              else Inr (IntegerOverflow, instr))
      | Token_Number \<Rightarrow>
          and_then (is_valid_number (content token)) (\<lambda>valid.
            if \<not> valid then Inr (InvalidNumber, instr)
            else let r = string_to_integer (content token) in
              if fst r then Inr (NoError, push_operand instr (from_integer False (snd r)))
              else Inr (IntegerOverflow, instr))
      | Token_String \<Rightarrow>
          (if length (content token) > 1 \<and> last (content token) = CHR 0x22
           then and_then (from_string_literal (content token))
                  (\<lambda>operand. Inr (NoError, push_operand instr operand))
           else Inr (MissingQuote, instr))
      | _ \<Rightarrow> Inr (InvalidTokenKind, instr))"

section \<open>The lexer (parser.cpp, solution.cpp)\<close>

text \<open>
  The parser's cursor \<open>current_\<close> is modelled by the text from the cursor to
  \<open>source_end_\<close>; a function that returns a pointer returns the text from that pointer
  on. The character classes are those of the C locale.
\<close>

definition isdigit_c :: "char \<Rightarrow> bool" where
  "isdigit_c ch = (48 \<le> (of_char ch :: nat) \<and> (of_char ch :: nat) \<le> 57)"

definition isalpha_c :: "char \<Rightarrow> bool" where
  "isalpha_c ch =
     ((65 \<le> (of_char ch :: nat) \<and> (of_char ch :: nat) \<le> 90)
      \<or> (97 \<le> (of_char ch :: nat) \<and> (of_char ch :: nat) \<le> 122))"

definition isalnum_c :: "char \<Rightarrow> bool" where
  "isalnum_c ch = (isalpha_c ch \<or> isdigit_c ch)"

definition consume_spaces :: "string \<Rightarrow> string" where
  "consume_spaces s = dropWhile (\<lambda>ch. isspace_c ch \<and> ch \<noteq> CHR 0x0A) s"

definition parse_decimal_number :: "string \<Rightarrow> string" where
  "parse_decimal_number s =
     (case s of
        [] \<Rightarrow> []
      | c # r \<Rightarrow> dropWhile isdigit_c (if c = CHR ''+'' \<or> c = CHR ''-'' then r else s))"

fun parse_string_literal :: "string \<Rightarrow> string" where
  "parse_string_literal [] = []"
| "parse_string_literal (c # r) =
     (if c = CHR 0x22 then r
      else if c = CHR 0x0A then c # r
      else parse_string_literal r)"

definition lex_identifier :: "string \<Rightarrow> string" where
  "lex_identifier s = dropWhile isalnum_c s"

definition consume_comment :: "string \<Rightarrow> string" where
  "consume_comment s = dropWhile (\<lambda>ch. ch \<noteq> CHR 0x0A) s"

text \<open>
  Modelled from the spec: \<open>assembler/opcode.def\<close>, the table of the \<open>OPCODE (name)\<close>
  and \<open>PSEUDO (name)\<close> entries, is not among the sources. The spec's closed set of
  mnemonics and pseudo-ops gives the spellings; the enumerators used in solution.cpp and
  instruction.cpp are the same names.
\<close>

definition opcodes :: "string list" where
  "opcodes =
     [''ADD'', ''AND'', ''BR'', ''BRn'', ''BRz'', ''BRp'', ''BRzp'', ''BRnp'', ''BRnz'',
      ''BRnzp'', ''JMP'', ''JSR'', ''JSRR'', ''LD'', ''LDI'', ''LDR'', ''LEA'', ''NOT'',
      ''RET'', ''RTI'', ''ST'', ''STI'', ''STR'', ''TRAP'', ''GETC'', ''OUT'', ''PUTS'',
      ''IN'', ''PUTSP'', ''HALT'']"

definition pseudos :: "string list" where
  "pseudos = [''.ORIG'', ''.FILL'', ''.BLKW'', ''.STRINGZ'', ''.END'']"

definition is_valid_opcode :: "string \<Rightarrow> bool" where
  "is_valid_opcode identifier = (identifier \<in> set opcodes)"

definition is_valid_register :: "string \<Rightarrow> bool" where
  "is_valid_register identifier =
     (length identifier = 2 \<and> identifier ! 0 = CHR ''R''
      \<and> 48 \<le> (of_char (identifier ! 1) :: nat) \<and> (of_char (identifier ! 1) :: nat) < 56)"

definition is_hex_digit :: "char \<Rightarrow> bool" where
  "is_hex_digit ch =
     ((48 \<le> (of_char ch :: nat) \<and> (of_char ch :: nat) \<le> 57)
      \<or> (97 \<le> (of_char ch :: nat) \<and> (of_char ch :: nat) \<le> 102)
      \<or> (65 \<le> (of_char ch :: nat) \<and> (of_char ch :: nat) \<le> 70))"

definition is_binary_digit :: "char \<Rightarrow> bool" where
  "is_binary_digit ch = (ch = CHR ''0'' \<or> ch = CHR ''1'')"

text \<open>\<open>identifier\<close> has at least one character when the lexer calls this function.\<close>

definition may_be_valid_immediate_number :: "string \<Rightarrow> bool" where
  "may_be_valid_immediate_number identifier =
     (case identifier of
        [] \<Rightarrow> False
      | c # rest \<Rightarrow>
          if c = CHR ''x'' then list_all is_hex_digit rest
          else if c = CHR ''b'' then list_all is_binary_digit rest
          else False)"

definition identifier_kind :: "string \<Rightarrow> TokenKind" where
  "identifier_kind identifier =
     (if is_valid_opcode identifier then Token_Opcode
      else if is_valid_register identifier then Token_Register
      else if may_be_valid_immediate_number identifier then Token_Immediate
      else Token_Label)"

definition is_valid_pseudo :: "string \<Rightarrow> bool" where
  "is_valid_pseudo content' = (content' \<in> set pseudos)"

text \<open>
  \<open>Parser::next_token\<close>: the token at the cursor and the text after it. \<open>goto Restart\<close>
  is the recursive call; the token's slice is what lies between \<open>token_begin\<close> and the
  new cursor.
\<close>

definition make_token :: "TokenKind \<Rightarrow> string \<Rightarrow> string \<Rightarrow> Token \<times> string" where
  "make_token k token_begin current =
     (\<lparr>kind = k, content = take (length token_begin - length current) token_begin\<rparr>, current)"

function next_token :: "string \<Rightarrow> Token \<times> string" where
  "next_token src =
     (case src of
        [] \<Rightarrow> make_token Token_End src src
      | c # r \<Rightarrow>
          if c = CHR 0x0A then make_token Token_EOL src r
          else if c = CHR 0x0D \<or> c = CHR '' '' \<or> c = CHR 0x09 \<or> c = CHR 0x0C \<or> c = CHR 0x0B
            then next_token (consume_spaces r)
          else if c = CHR '','' then make_token Token_Comma src r
          else if c = CHR ''#'' then make_token Token_Immediate src (parse_decimal_number r)
          else if c = CHR 0x22 then make_token Token_String src (parse_string_literal r)
          else if isdigit_c c \<or> c = CHR ''+'' \<or> c = CHR ''-''
            then make_token Token_Number src (parse_decimal_number src)
          else if isalpha_c c
            then make_token
                   (identifier_kind (take (length src - length (lex_identifier r)) src))
                   src (lex_identifier r)
          else if c = CHR ''.''
            then make_token
                   (if is_valid_pseudo (take (length src - length (lex_identifier r)) src)
                    then Token_Pseudo else Token_Unknown)
                   src (lex_identifier r)
          else if c = CHR '';'' then next_token (consume_comment r)
          else make_token Token_Unknown src r)"
  by pat_completeness auto
termination
  by (relation "measure length")
     (auto simp: consume_spaces_def consume_comment_def less_Suc_eq_le length_dropWhile_le)

declare next_token.simps [simp del]

section \<open>Validation (instruction.cpp, solution.cpp)\<close>

text \<open>
  The diagnostics are lines written to \<open>std::cout\<close>; the model keeps one event for
  each line, with what the line prints, in the order they are written.
\<close>

datatype diag =
  InstructionDisallowsLabel Instruction
| OperandCountMismatch Instruction nat nat
| OperandTypeMismatch nat Instruction OperandType OperandType
| ImmediateOutOfRange Operand Instruction i16 i16
| OrigMissing Instruction
| MultipleOrig
| LabelRedefinition Instruction
| LabelNotFound Operand Instruction
| LabelOffsetOutOfRange Operand Instruction i16

definition allows_label :: "Instruction \<Rightarrow> bool" where
  "allows_label instr = (get_opcode instr \<noteq> ORIGOp \<and> get_opcode instr \<noteq> ENDOp)"

fun expected_operand_types :: "Opcode \<Rightarrow> OperandType list list" where
  "expected_operand_types ADDOp = [[Register, Register, Register], [Register, Register, Immediate]]"
| "expected_operand_types ANDOp = [[Register, Register, Register], [Register, Register, Immediate]]"
| "expected_operand_types BRnOp = [[Label], [Immediate]]"
| "expected_operand_types BRzOp = [[Label], [Immediate]]"
| "expected_operand_types BRpOp = [[Label], [Immediate]]"
| "expected_operand_types BROp = [[Label], [Immediate]]"
| "expected_operand_types BRzpOp = [[Label], [Immediate]]"
| "expected_operand_types BRnpOp = [[Label], [Immediate]]"
| "expected_operand_types BRnzOp = [[Label], [Immediate]]"
| "expected_operand_types BRnzpOp = [[Label], [Immediate]]"
| "expected_operand_types JSROp = [[Label], [Immediate]]"
| "expected_operand_types JMPOp = [[Register]]"
| "expected_operand_types JSRROp = [[Register]]"
| "expected_operand_types LDOp = [[Register, Label]]"
| "expected_operand_types LDIOp = [[Register, Label]]"
| "expected_operand_types LEAOp = [[Register, Label]]"
| "expected_operand_types STOp = [[Register, Label]]"
| "expected_operand_types STIOp = [[Register, Label]]"
| "expected_operand_types LDROp = [[Register, Register, Immediate]]"
| "expected_operand_types STROp = [[Register, Register, Immediate]]"
| "expected_operand_types NOTOp = [[Register, Register]]"
| "expected_operand_types TRAPOp = [[Immediate]]"
| "expected_operand_types ORIGOp = [[Immediate]]"
| "expected_operand_types FILLOp = [[Immediate]]"
| "expected_operand_types BLKWOp = [[Number]]"
| "expected_operand_types STRINGZOp = [[StringLiteral]]"
| "expected_operand_types _ = [[]]"

text \<open>The pair \<open>(lower bound, upper bound)\<close>; \<open>return {}\<close> is \<open>(0, 0)\<close>.\<close>

fun immediate_range :: "Opcode \<Rightarrow> i16 \<times> i16" where
  "immediate_range TRAPOp = (0, 255)"
| "immediate_range ORIGOp = (- 32768, 32767)"
| "immediate_range FILLOp = (- 32768, 32767)"
| "immediate_range BLKWOp = (- 32768, 32767)"
| "immediate_range ADDOp = (- 16, 15)"
| "immediate_range ANDOp = (- 16, 15)"
| "immediate_range LDOp = (- 256, 255)"
| "immediate_range LDIOp = (- 256, 255)"
| "immediate_range LEAOp = (- 256, 255)"
| "immediate_range STOp = (- 256, 255)"
| "immediate_range STIOp = (- 256, 255)"
| "immediate_range BROp = (- 256, 255)"
| "immediate_range BRnOp = (- 256, 255)"
| "immediate_range BRzOp = (- 256, 255)"
| "immediate_range BRpOp = (- 256, 255)"
| "immediate_range BRzpOp = (- 256, 255)"
| "immediate_range BRnpOp = (- 256, 255)"
| "immediate_range BRnzOp = (- 256, 255)"
| "immediate_range BRnzpOp = (- 256, 255)"
| "immediate_range LDROp = (- 32, 31)"
| "immediate_range STROp = (- 32, 31)"
| "immediate_range JSROp = (- 1024, 1023)"
| "immediate_range _ = (0, 0)"

text \<open>
  \<open>std::mismatch\<close> over the operands and one expected list: the index of the first
  operand whose type differs from the expected one, the number of operands when none
  does. The expected lists of an opcode all have the length the operand count was
  checked against.
\<close>

fun mismatch :: "Operand list \<Rightarrow> OperandType list \<Rightarrow> nat" where
  "mismatch [] expected = 0"
| "mismatch (operand # ops) [] = 0"
| "mismatch (operand # ops) (e # expected) =
     (if operand_type operand = e then Suc (mismatch ops expected) else 0)"

text \<open>
  The loop over the expected lists, on the pair \<open>(mismatched_operand_index,
  expected_operand_type)\<close>: it stops at the first list that matches.
\<close>

fun match_expected ::
  "Operand list \<Rightarrow> OperandType list list \<Rightarrow> nat \<times> OperandType \<Rightarrow> nat \<times> OperandType" where
  "match_expected ops [] st = st"
| "match_expected ops (expected # rest) st =
     (let i = mismatch ops expected in
      if i = length ops then (i, snd st)
      else match_expected ops rest (i, expected ! i))"

definition is_integer_operand :: "Operand \<Rightarrow> bool" where
  "is_integer_operand operand =
     (operand_type operand = Immediate \<or> operand_type operand = Number)"

definition integer_of_operand :: "Operand \<Rightarrow> fault + i16" where
  "integer_of_operand operand =
     (if operand_type operand = Immediate then immediate_value operand
      else regular_decimal operand)"

text \<open>
  \<open>validate_and_emit_diagnostics\<close> returns whether the instruction is valid and prints at
  most one line. The accessor it calls is the one of the operand's type, so it cannot
  fail; the model keeps the failure as the value \<open>True\<close> with no line all the same.
\<close>

definition validate_and_emit_diagnostics :: "Instruction \<Rightarrow> bool \<times> diag list" where
  "validate_and_emit_diagnostics instr =
     (if \<not> allows_label instr \<and> has_label instr
        then (False, [InstructionDisallowsLabel instr])
      else
        let expected_operands = expected_operand_types (get_opcode instr);
            expected_operand_size = length (hd expected_operands);
            ops = get_operands instr
        in if length ops \<noteq> expected_operand_size
             then (False, [OperandCountMismatch instr expected_operand_size (length ops)])
           else
             let m = match_expected ops expected_operands (0, Register) in
             if fst m \<noteq> length ops
               then (False, [OperandTypeMismatch (fst m + 1) instr (snd m)
                               (operand_type (ops ! fst m))])
             else
               (case find is_integer_operand ops of
                  None \<Rightarrow> (True, [])
                | Some imm_operand \<Rightarrow>
                    (case integer_of_operand imm_operand of
                       Inl e \<Rightarrow> (True, [])
                     | Inr imm_value \<Rightarrow>
                         let valid_range = immediate_range (get_opcode instr) in
                         if sint imm_value < sint (fst valid_range)
                            \<or> sint imm_value > sint (snd valid_range)
                           then (False, [ImmediateOutOfRange imm_operand instr
                                           (fst valid_range) (snd valid_range)])
                         else (True, []))))"

section \<open>The assembler (assembler.hpp, assembler.cpp, solution.cpp)\<close>

record Assembler =
  instructions :: "Instruction list"
  symbol_table :: "string \<rightharpoonup> u16"

subsection \<open>Pass 1: \<open>Assembler::assign_addresses\<close>\<close>

text \<open>
  What the \<open>switch\<close> adds to \<open>address\<close>, as a 16-bit word: the \<open>std::int16_t\<close> of
  \<open>.BLKW\<close> and the \<open>std::size_t\<close> of \<open>.STRINGZ\<close> are added in a wider type and the
  sum is cut to \<open>std::uint16_t\<close>, which is the addition of the 16-bit words.
\<close>

definition address_increment :: "Instruction \<Rightarrow> fault + u16" where
  "address_increment instr =
     (case get_opcode instr of
        FILLOp \<Rightarrow> Inr 1
      | BLKWOp \<Rightarrow>
          and_then (get_operand instr 0) (\<lambda>operand.
          and_then (regular_decimal operand) (\<lambda>k. Inr k))
      | STRINGZOp \<Rightarrow>
          and_then (get_operand instr 0) (\<lambda>operand.
          and_then (string_literal operand) (\<lambda>s. Inr (of_nat (length s + 1))))
      | _ \<Rightarrow> Inr 1)"

fun assign_from :: "u16 \<Rightarrow> Instruction list \<Rightarrow> fault + Instruction list" where
  "assign_from address [] = Inr []"
| "assign_from address (instr # rest) =
     and_then (address_increment instr) (\<lambda>inc.
     and_then (assign_from (address + inc) rest) (\<lambda>rest'.
       Inr (set_address instr address # rest')))"

definition assign_addresses :: "Instruction list \<Rightarrow> fault + Instruction list" where
  "assign_addresses instrs =
     (case instrs of
        [] \<Rightarrow> Inl OutOfBounds
      | front # _ \<Rightarrow>
          and_then (get_operand front 0) (\<lambda>operand.
          and_then (immediate_value operand) (\<lambda>address.
            assign_from address instrs)))"

subsection \<open>Pass 2a: \<open>Assembler::scan_label\<close>\<close>

fun scan_label ::
  "Instruction list \<Rightarrow> (string \<rightharpoonup> u16) \<Rightarrow> bool \<times> (string \<rightharpoonup> u16) \<times> diag list" where
  "scan_label [] table = (True, table, [])"
| "scan_label (instr # rest) table =
     (if has_label instr then
        (if table (get_label instr) \<noteq> None then (False, table, [LabelRedefinition instr])
         else scan_label rest (table(get_label instr \<mapsto> get_address instr)))
      else scan_label rest table)"

subsection \<open>Pass 2b: encoding\<close>

fun translate_opcode :: "Opcode \<Rightarrow> u16" where
  "translate_opcode ADDOp = 1"
| "translate_opcode ANDOp = 5"
| "translate_opcode BRnOp = 0"
| "translate_opcode BRzOp = 0"
| "translate_opcode BRpOp = 0"
| "translate_opcode BROp = 0"
| "translate_opcode BRzpOp = 0"
| "translate_opcode BRnpOp = 0"
| "translate_opcode BRnzOp = 0"
| "translate_opcode BRnzpOp = 0"
| "translate_opcode JMPOp = 12"
| "translate_opcode JSROp = 4"
| "translate_opcode JSRROp = 4"
| "translate_opcode LDOp = 2"
| "translate_opcode LDIOp = 10"
| "translate_opcode LDROp = 6"
| "translate_opcode LEAOp = 14"
| "translate_opcode NOTOp = 9"
| "translate_opcode RETOp = 12"
| "translate_opcode RTIOp = 8"
| "translate_opcode STOp = 3"
| "translate_opcode STIOp = 11"
| "translate_opcode STROp = 7"
| "translate_opcode TRAPOp = 15"
| "translate_opcode GETCOp = 15"
| "translate_opcode OUTOp = 15"
| "translate_opcode PUTSOp = 15"
| "translate_opcode INOp = 15"
| "translate_opcode PUTSPOp = 15"
| "translate_opcode HALTOp = 15"
| "translate_opcode _ = 13"

definition translate_register :: "Operand \<Rightarrow> nat \<Rightarrow> fault + u16" where
  "translate_register reg_operand position =
     and_then (register_id reg_operand) (\<lambda>reg_id. Inr (push_bit position (ucast reg_id)))"

definition translate_immediate :: "Operand \<Rightarrow> nat \<Rightarrow> fault + u16" where
  "translate_immediate imm_operand bits =
     and_then (immediate_value imm_operand) (\<lambda>v. Inr (v AND (push_bit bits 1 - 1)))"

text \<open>
  \<open>translate_label\<close> returns the field and may print one line. The subtraction
  \<open>label_address - instr_address - 1\<close> is done on \<open>int\<close> (both addresses are promoted)
  and \<open>static_cast<std::int16_t>\<close> cuts it to 16 bits; the comparison with the bounds and
  the final \<open>&\<close> are on \<open>int\<close> again. The value \<open>- 1\<close> of a 16-bit word is
  \<open>static_cast<std::uint16_t>(-1)\<close>.
\<close>

definition translate_label ::
  "(string \<rightharpoonup> u16) \<Rightarrow> Instruction \<Rightarrow> nat \<Rightarrow> nat \<Rightarrow> fault + (u16 \<times> diag list)" where
  "translate_label table instr operand_idx bits =
     and_then (get_operand instr operand_idx) (\<lambda>label_operand.
     and_then (label label_operand) (\<lambda>l.
       case table l of
         None \<Rightarrow> Inr (- 1, [LabelNotFound label_operand instr])
       | Some label_address \<Rightarrow>
           let offset = (word_of_int (uint label_address - uint (get_address instr) - 1) :: i16);
               max_offset = (2 ^ (bits - 1) - 1 :: int);
               min_offset = - (2 ^ (bits - 1) :: int)
           in if sint offset < min_offset \<or> sint offset > max_offset
                then Inr (- 1, [LabelOffsetOutOfRange label_operand instr offset])
              else Inr (word_of_int (sint offset AND (2 ^ bits - 1)), [])))"

text \<open>The three forms of \<open>result |= translate_... (...)\<close>.\<close>

definition or_register :: "Instruction \<Rightarrow> nat \<Rightarrow> nat \<Rightarrow> u16 \<Rightarrow> fault + u16" where
  "or_register instr idx position result =
     and_then (get_operand instr idx) (\<lambda>operand.
     and_then (translate_register operand position) (\<lambda>r. Inr (result OR r)))"

definition or_immediate :: "Instruction \<Rightarrow> nat \<Rightarrow> nat \<Rightarrow> u16 \<Rightarrow> fault + u16" where
  "or_immediate instr idx bits result =
     and_then (get_operand instr idx) (\<lambda>operand.
     and_then (translate_immediate operand bits) (\<lambda>r. Inr (result OR r)))"

definition or_label ::
  "(string \<rightharpoonup> u16) \<Rightarrow> Instruction \<Rightarrow> nat \<Rightarrow> nat \<Rightarrow> u16 \<Rightarrow> fault + (u16 \<times> diag list)" where
  "or_label table instr idx bits result =
     and_then (translate_label table instr idx bits) (\<lambda>r. Inr (result OR fst r, snd r))"

definition no_diag :: "fault + u16 \<Rightarrow> fault + (u16 \<times> diag list)" where
  "no_diag r = and_then r (\<lambda>w. Inr (w, []))"

text \<open>
  The bodies that several \<open>case\<close> labels of the \<open>switch\<close> share, and the \<open>switch\<close>
  itself, on the opcode.
\<close>

definition translate_add_and :: "Instruction \<Rightarrow> u16 \<Rightarrow> fault + (u16 \<times> diag list)" where
  "translate_add_and instr result =
     and_then (or_register instr 0 9 result) (\<lambda>r1.
     and_then (or_register instr 1 6 r1) (\<lambda>r2.
     and_then (get_operand instr 2) (\<lambda>operand.
       if operand_type operand = Immediate
         then no_diag (or_immediate instr 2 5 (r2 OR push_bit 5 1))
       else no_diag (or_register instr 2 0 r2))))"

definition translate_ld_st ::
  "(string \<rightharpoonup> u16) \<Rightarrow> Instruction \<Rightarrow> u16 \<Rightarrow> fault + (u16 \<times> diag list)" where
  "translate_ld_st table instr result =
     and_then (or_register instr 0 9 result) (\<lambda>r1. or_label table instr 1 9 r1)"

definition translate_ldr_str :: "Instruction \<Rightarrow> u16 \<Rightarrow> fault + (u16 \<times> diag list)" where
  "translate_ldr_str instr result =
     and_then (or_register instr 0 9 result) (\<lambda>r1.
     and_then (or_register instr 1 6 r1) (\<lambda>r2.
       no_diag (or_immediate instr 2 6 r2)))"

fun translate_switch ::
  "Opcode \<Rightarrow> (string \<rightharpoonup> u16) \<Rightarrow> Instruction \<Rightarrow> u16 \<Rightarrow> fault + (u16 \<times> diag list)" where
  "translate_switch ADDOp table instr result = translate_add_and instr result"
| "translate_switch ANDOp table instr result = translate_add_and instr result"
| "translate_switch BROp table instr result = or_label table instr 0 9 (result OR push_bit 9 7)"
| "translate_switch BRnOp table instr result = or_label table instr 0 9 (result OR push_bit 9 4)"
| "translate_switch BRzOp table instr result =
     and_then (get_operand instr 0) (\<lambda>operand.
       if operand_type operand = Label
         then or_label table instr 0 9 (result OR push_bit 9 2)
       else no_diag (or_immediate instr 0 9 (result OR push_bit 9 2)))"
| "translate_switch BRpOp table instr result = or_label table instr 0 9 (result OR push_bit 9 1)"
| "translate_switch BRzpOp table instr result = or_label table instr 0 9 (result OR push_bit 9 3)"
| "translate_switch BRnpOp table instr result = or_label table instr 0 9 (result OR push_bit 9 5)"
| "translate_switch BRnzOp table instr result = or_label table instr 0 9 (result OR push_bit 9 6)"
| "translate_switch BRnzpOp table instr result = or_label table instr 0 9 (result OR push_bit 9 7)"
| "translate_switch JMPOp table instr result = no_diag (or_register instr 0 6 result)"
| "translate_switch JSRROp table instr result = no_diag (or_register instr 0 6 result)"
| "translate_switch JSROp table instr result = or_label table instr 0 11 (result OR push_bit 11 1)"
| "translate_switch LDOp table instr result = translate_ld_st table instr result"
| "translate_switch LDIOp table instr result = translate_ld_st table instr result"
| "translate_switch LEAOp table instr result = translate_ld_st table instr result"
| "translate_switch LDROp table instr result = translate_ldr_str instr result"
| "translate_switch STROp table instr result = translate_ldr_str instr result"
| "translate_switch NOTOp table instr result =
     and_then (or_register instr 0 9 result) (\<lambda>r1.
     and_then (or_register instr 1 6 r1) (\<lambda>r2. Inr (r2 OR 0x3F, [])))"
| "translate_switch RETOp table instr result = Inr (result OR push_bit 6 7, [])"
| "translate_switch RTIOp table instr result = Inr (result, [])"
| "translate_switch STOp table instr result = translate_ld_st table instr result"
| "translate_switch STIOp table instr result = translate_ld_st table instr result"
| "translate_switch TRAPOp table instr result = no_diag (or_immediate instr 0 8 result)"
| "translate_switch GETCOp table instr result = Inr (result OR 0x20, [])"
| "translate_switch OUTOp table instr result = Inr (result OR 0x21, [])"
| "translate_switch PUTSOp table instr result = Inr (result OR 0x22, [])"
| "translate_switch INOp table instr result = Inr (result OR 0x23, [])"
| "translate_switch PUTSPOp table instr result = Inr (result OR 0x24, [])"
| "translate_switch HALTOp table instr result = Inr (result OR 0x25, [])"
| "translate_switch _ table instr result = Inr (result, [])"

definition translate_regular_instruction ::
  "(string \<rightharpoonup> u16) \<Rightarrow> Instruction \<Rightarrow> fault + (u16 \<times> diag list)" where
  "translate_regular_instruction table instr =
     translate_switch (get_opcode instr) table instr
       (push_bit 12 (translate_opcode (get_opcode instr)))"

text \<open>
  \<open>static_cast<std::uint16_t>(c)\<close> of a \<open>char\<close>. Whether plain \<open>char\<close> is signed is
  the compiler's choice (it is on x86-64), so the model takes it as the parameter
  \<open>char_is_signed\<close>: a signed \<open>char\<close> with the top bit set is negative and the
  conversion extends its sign.
\<close>

definition uint16_of_char :: "bool \<Rightarrow> char \<Rightarrow> u16" where
  "uint16_of_char char_is_signed c =
     (if char_is_signed \<and> 128 \<le> (of_char c :: nat)
      then word_of_int (int (of_char c) - 256)
      else of_nat (of_char c))"

text \<open>
  \<open>std::vector<std::uint16_t>::max_size ()\<close> of libstdc++ on a 64-bit target:
  \<open>PTRDIFF_MAX / sizeof (std::uint16_t)\<close>.
\<close>

definition vector_max_size :: nat where
  "vector_max_size = (2 ^ 63 - 1) div 2"

text \<open>
  \<open>results.resize (results.size () + k, 0)\<close> with \<open>k\<close> a \<open>std::int16_t\<close>: the sum is
  a \<open>std::size_t\<close>, so a negative \<open>k\<close> wraps around modulo \<open>2 ^ 64\<close>. \<open>resize\<close> throws
  \<open>std::length_error\<close> beyond \<open>max_size ()\<close>, cuts the vector when the new size is
  smaller and appends zeros when it is larger.
\<close>

definition resize :: "u16 list \<Rightarrow> nat \<Rightarrow> fault + u16 list" where
  "resize results new_size =
     (if new_size > vector_max_size then Inl LengthError
      else if new_size \<le> length results then Inr (take new_size results)
      else Inr (results @ replicate (new_size - length results) 0))"

definition translate_pseudo :: "bool \<Rightarrow> Instruction \<Rightarrow> u16 list \<Rightarrow> fault + u16 list" where
  "translate_pseudo char_is_signed instr results =
     (case get_opcode instr of
        FILLOp \<Rightarrow>
          and_then (get_operand instr 0) (\<lambda>operand.
          and_then (immediate_value operand) (\<lambda>v. Inr (results @ [v])))
      | ORIGOp \<Rightarrow> Inr results
      | BLKWOp \<Rightarrow>
          and_then (get_operand instr 0) (\<lambda>operand.
          and_then (regular_decimal operand) (\<lambda>k.
            resize results (unat (of_nat (length results) + (scast k :: 64 word)))))
      | STRINGZOp \<Rightarrow>
          and_then (get_operand instr 0) (\<lambda>operand.
          and_then (string_literal operand) (\<lambda>s.
            Inr (results @ map (uint16_of_char char_is_signed) s @ [0])))
      | ENDOp \<Rightarrow> Inr results
      | _ \<Rightarrow> Inr results)"

definition is_pseudo :: "Opcode \<Rightarrow> bool" where
  "is_pseudo opc = (opc \<in> set [ORIGOp, ENDOp, FILLOp, BLKWOp, STRINGZOp])"

text \<open>
  \<open>Assembler::translate\<close>: the loop over the instructions, on the vector \<open>results\<close> and
  the lines printed so far. The word \<open>static_cast<std::uint16_t>(-1)\<close> of an instruction
  ends it with an empty vector.
\<close>

fun translate_from ::
  "bool \<Rightarrow> (string \<rightharpoonup> u16) \<Rightarrow> Instruction list \<Rightarrow> u16 list \<times> diag list
   \<Rightarrow> fault + (u16 list \<times> diag list)" where
  "translate_from char_is_signed table [] acc = Inr acc"
| "translate_from char_is_signed table (instr # rest) acc =
     (if is_pseudo (get_opcode instr) then
        and_then (translate_pseudo char_is_signed instr (fst acc)) (\<lambda>results.
          translate_from char_is_signed table rest (results, snd acc))
      else
        and_then (translate_regular_instruction table instr) (\<lambda>r.
          if fst r = - 1 then Inr ([], snd acc @ snd r)
          else translate_from char_is_signed table rest (fst acc @ [fst r], snd acc @ snd r)))"

definition translate ::
  "bool \<Rightarrow> (string \<rightharpoonup> u16) \<Rightarrow> Instruction list \<Rightarrow> fault + (u16 list \<times> diag list)" where
  "translate char_is_signed table instrs = translate_from char_is_signed table instrs ([], [])"

subsection \<open>\<open>Assembler::run\<close>\<close>

text \<open>
  \<open>std::any_of\<close> over the validation stops at the first instruction that fails: the pair
  is whether one failed and the lines printed.
\<close>

fun validate_all :: "Instruction list \<Rightarrow> bool \<times> diag list" where
  "validate_all [] = (False, [])"
| "validate_all (instr # rest) =
     (let v = validate_and_emit_diagnostics instr in
      if \<not> fst v then (True, snd v)
      else (fst (validate_all rest), snd v @ snd (validate_all rest)))"

text \<open>
  \<open>run\<close> returns the words; it also changes the assembler (addresses, symbol table) and
  prints. The model returns the three. On the empty vector \<open>std::next (begin ())\<close> is past
  the end, and \<open>front ()\<close> in \<open>assign_addresses\<close> reads outside the vector.
\<close>

definition run :: "bool \<Rightarrow> Assembler \<Rightarrow> fault + (Assembler \<times> u16 list \<times> diag list)" where
  "run char_is_signed asm =
     (let instrs = instructions asm; v = validate_all instrs in
      if fst v then Inr (asm, [], snd v)
      else if instrs \<noteq> [] \<and> get_opcode (hd instrs) \<noteq> ORIGOp
        then Inr (asm, [], snd v @ [OrigMissing (hd instrs)])
      else if instrs = [] then Inl OutOfBounds
      else if list_ex (\<lambda>instr. get_opcode instr = ORIGOp) (tl instrs)
        then Inr (asm, [], snd v @ [MultipleOrig])
      else
        and_then (assign_addresses instrs) (\<lambda>instrs'.
          let sl = scan_label instrs' (symbol_table asm);
              asm' = \<lparr>instructions = instrs', symbol_table = fst (snd sl)\<rparr>
          in if \<not> fst sl then Inr (asm', [], snd v @ snd (snd sl))
             else and_then (translate char_is_signed (symbol_table asm') instrs') (\<lambda>t.
                    Inr (asm', fst t, snd v @ snd t))))"

subsection \<open>The output loop of \<open>main\<close>\<close>

definition start_address :: "Assembler \<Rightarrow> fault + u16" where
  "start_address asm =
     (case instructions asm of [] \<Rightarrow> Inl OutOfBounds | front # _ \<Rightarrow> Inr (get_address front))"

text \<open>
  \<open>main\<close> from the parsed instructions on: the exit code, the lines of diagnostics and
  the output lines. An output line prints \<open>start_address + i\<close>, a \<open>std::size_t\<close>, in
  hexadecimal and the sixteen bits of \<open>binary[i]\<close>; the model keeps the two numbers.
\<close>

definition main_output ::
  "bool \<Rightarrow> Instruction list \<Rightarrow> fault + (nat \<times> diag list \<times> (64 word \<times> u16) list)" where
  "main_output char_is_signed instrs =
     (if length instrs = 1 \<and> get_opcode (hd instrs) = UnknownOp then Inr (1, [], [])
      else
        and_then (run char_is_signed \<lparr>instructions = instrs, symbol_table = Map.empty\<rparr>) (\<lambda>r.
          let asm = fst r; binary = fst (snd r); out = snd (snd r) in
          if binary = [] then Inr (1, out, [])
          else and_then (start_address asm) (\<lambda>start.
                 Inr (0, out,
                   map (\<lambda>i. (ucast start + of_nat i, binary ! i)) [0..<length binary]))))"

section \<open>The readings of the specification\<close>

text \<open>
  The definitions of this section follow the words of the specification, not the code;
  the theorems compare the code with them.
\<close>

subsection \<open>The classification of an identifier\<close>

text \<open>
  The rules of the specification, in its order: an exact match against the set of opcode
  mnemonics; length 2, \<open>R\<close> and one of \<open>0\<close> to \<open>7\<close>; a first \<open>x\<close> and then hex
  digits only; a first \<open>b\<close> and then \<open>0\<close> or \<open>1\<close> only; otherwise a label.
\<close>

definition spec_identifier_kind :: "string \<Rightarrow> TokenKind" where
  "spec_identifier_kind s =
     (if s \<in> set opcodes then Token_Opcode
      else if length s = 2 \<and> hd s = CHR ''R'' \<and> last s \<in> set ''01234567'' then Token_Register
      else if hd s = CHR ''x'' \<and> set (tl s) \<subseteq> set ''0123456789abcdefABCDEF''
        then Token_Immediate
      else if hd s = CHR ''b'' \<and> set (tl s) \<subseteq> set ''01'' then Token_Immediate
      else Token_Label)"

subsection \<open>The integer a slice represents\<close>






text \<open>
  The slices the lexer gives to an Immediate or a Number token, said with the lexer's own
  functions: \<open>#\<close> and what \<open>parse_decimal_number\<close> consumes; a slice that starts with a
  digit or a sign and that \<open>parse_decimal_number\<close> consumes whole; an identifier that
  \<open>may_be_valid_immediate_number\<close> accepts.
\<close>

definition lexer_numeric_slice :: "string \<Rightarrow> bool" where
  "lexer_numeric_slice s =
     (case s of
        [] \<Rightarrow> False
      | c # t \<Rightarrow>
          if c = CHR ''#'' then parse_decimal_number t = []
          else if isdigit_c c \<or> c = CHR ''+'' \<or> c = CHR ''-'' then parse_decimal_number s = []
          else list_all isalnum_c s \<and> may_be_valid_immediate_number s)"

subsection \<open>Pass 1 and the offsets\<close>

text \<open>
  The increment of pass 1: the Number operand for \<open>.BLKW\<close>, the byte length of the
  literal plus one for \<open>.STRINGZ\<close>, one for every other instruction.
\<close>

definition pass1_increment :: "Instruction \<Rightarrow> u16" where
  "pass1_increment instr =
     (if get_opcode instr = BLKWOp
        then (case get_operands instr of NumberOperand k # _ \<Rightarrow> k | _ \<Rightarrow> 0)
      else if get_opcode instr = STRINGZOp
        then (case get_operands instr of
                StringLiteralOperand s # _ \<Rightarrow> of_nat (length s + 1) | _ \<Rightarrow> 0)
      else 1)"



section \<open>Validation: what a valid instruction looks like\<close>

lemma mismatch_all:
  "mismatch ops e = length ops \<Longrightarrow> length e = length ops \<Longrightarrow> map operand_type ops = e"
  by (induction ops e rule: mismatch.induct) (auto split: if_splits)

lemma match_expected_found:
  "es \<noteq> [] \<Longrightarrow> fst (match_expected ops es st) = length ops
   \<Longrightarrow> \<exists>e\<in>set es. mismatch ops e = length ops"
proof (induction es arbitrary: st)
  case Nil
  then show ?case by simp
next
  case (Cons e es)
  show ?case
  proof (cases "mismatch ops e = length ops")
    case True
    then show ?thesis by simp
  next
    case False
    with Cons.prems
    have r: "fst (match_expected ops es (mismatch ops e, e ! mismatch ops e)) = length ops"
      by (simp add: Let_def)
    show ?thesis
    proof (cases es)
      case Nil
      with r False show ?thesis by simp
    next
      case (Cons e' es')
      then have "es \<noteq> []" by simp
      from Cons.IH [OF this r] show ?thesis by auto
    qed
  qed
qed

lemma expected_lengths:
  "e \<in> set (expected_operand_types opc)
   \<Longrightarrow> length e = length (hd (expected_operand_types opc))"
  by (cases opc) auto

lemma expected_nonempty: "expected_operand_types opc \<noteq> []"
  by (cases opc) auto

text \<open>
  The operand types of a valid instruction are one of the lists its opcode expects, and
  a valid instruction prints nothing.
\<close>

lemma validated_types:
  assumes "fst (validate_and_emit_diagnostics instr)"
  shows "map operand_type (get_operands instr)
           \<in> set (expected_operand_types (get_opcode instr))"
proof -
  let ?ops = "get_operands instr" and ?es = "expected_operand_types (get_opcode instr)"
  from assms have len: "length ?ops = length (hd ?es)"
    by (auto simp: validate_and_emit_diagnostics_def Let_def split: if_splits)
  from assms have m: "fst (match_expected ?ops ?es (0, Register)) = length ?ops"
    by (auto simp: validate_and_emit_diagnostics_def Let_def split: if_splits)
  from match_expected_found [OF expected_nonempty m]
  obtain e where e: "e \<in> set ?es" "mismatch ?ops e = length ?ops" by blast
  from expected_lengths [OF e(1)] len have "length e = length ?ops" by simp
  from mismatch_all [OF e(2) this] e(1) show ?thesis by simp
qed

lemma validated_no_diag:
  "fst (validate_and_emit_diagnostics instr)
   \<Longrightarrow> snd (validate_and_emit_diagnostics instr) = []"
  by (auto simp: validate_and_emit_diagnostics_def Let_def
           split: if_splits option.splits sum.splits)

text \<open>
  The accessor that \<open>validate_and_emit_diagnostics\<close> calls on the operand it found is
  the one of the operand's type: the call cannot fail.
\<close>

lemma integer_of_operand_total:
  "is_integer_operand operand \<Longrightarrow> \<exists>v. integer_of_operand operand = Inr v"
  by (cases operand) (auto simp: is_integer_operand_def integer_of_operand_def)

lemma type_Number: "operand_type operand = Number \<Longrightarrow> \<exists>k. operand = NumberOperand k"
  by (cases operand) auto

lemma type_Immediate: "operand_type operand = Immediate \<Longrightarrow> \<exists>v. operand = ImmediateOperand v"
  by (cases operand) auto


lemma type_Label: "operand_type operand = Label \<Longrightarrow> \<exists>l. operand = LabelOperand l"
  by (cases operand) auto

lemma type_StringLiteral:
  "operand_type operand = StringLiteral \<Longrightarrow> \<exists>s. operand = StringLiteralOperand s"
  by (cases operand) auto

lemma validated_BLKW:
  assumes "fst (validate_and_emit_diagnostics instr)" and "get_opcode instr = BLKWOp"
  shows "\<exists>k. get_operands instr = [NumberOperand k]"
proof -
  from validated_types [OF assms(1)] assms(2)
  have "map operand_type (get_operands instr) = [Number]" by simp
  then obtain operand where "get_operands instr = [operand]" "operand_type operand = Number"
    by (cases "get_operands instr") auto
  with type_Number show ?thesis by auto
qed

lemma validated_STRINGZ:
  assumes "fst (validate_and_emit_diagnostics instr)" and "get_opcode instr = STRINGZOp"
  shows "\<exists>s. get_operands instr = [StringLiteralOperand s]"
proof -
  from validated_types [OF assms(1)] assms(2)
  have "map operand_type (get_operands instr) = [StringLiteral]" by simp
  then obtain operand
    where "get_operands instr = [operand]" "operand_type operand = StringLiteral"
    by (cases "get_operands instr") auto
  with type_StringLiteral show ?thesis by auto
qed

lemma validated_ORIG:
  assumes "fst (validate_and_emit_diagnostics instr)" and "get_opcode instr = ORIGOp"
  shows "\<exists>v. get_operands instr = [ImmediateOperand v]"
proof -
  from validated_types [OF assms(1)] assms(2)
  have "map operand_type (get_operands instr) = [Immediate]" by simp
  then obtain operand
    where "get_operands instr = [operand]" "operand_type operand = Immediate"
    by (cases "get_operands instr") auto
  with type_Immediate show ?thesis by auto
qed

section \<open>Operand construction: properties\<close>

text \<open>
  Claim C10. \<open>Instruction::add_operand\<close> is atomic on failure: whenever the call returns
  an error type other than \<open>NoError\<close> (\<open>InvalidTokenKind\<close>, \<open>InvalidNumber\<close>,
  \<open>IntegerOverflow\<close> or \<open>MissingQuote\<close>), the instruction after the call is the
  instruction before it: same operand list, label, opcode and address.
\<close>

theorem add_operand_atomic_on_failure:
  assumes "add_operand instr token = Inr (err, instr')" and "err \<noteq> NoError"
  shows "instr' = instr"
  using assms
  by (auto simp: add_operand_def and_then_def Let_def
           split: TokenKind.splits if_splits sum.splits)

theorem add_operand_atomic_on_failure_witness:
  "add_operand
     \<lparr>get_label = ''L'', get_operands = [RegisterOperand 1], get_opcode = ADDOp,
        get_address = 7\<rparr>
     \<lparr>kind = Token_Immediate, content = ''#65536''\<rparr>
   = Inr (IntegerOverflow,
       \<lparr>get_label = ''L'', get_operands = [RegisterOperand 1], get_opcode = ADDOp,
          get_address = 7\<rparr>)
   \<and> IntegerOverflow \<noteq> NoError"
proof -
  let ?i = "\<lparr>get_label = ''L'', get_operands = [RegisterOperand 1], get_opcode = ADDOp,
              get_address = 7\<rparr>"
  let ?t = "\<lparr>kind = Token_Immediate, content = ''#65536''\<rparr>"
  have "\<exists>instr'. add_operand ?i ?t = Inr (IntegerOverflow, instr')"
    by (simp add: add_operand_def is_valid_number_def and_then_def string_to_integer_def
          stoll_def isspace_c_def digit_value_def Let_def)
  then obtain instr' where call: "add_operand ?i ?t = Inr (IntegerOverflow, instr')"
    by blast
  have ne: "IntegerOverflow \<noteq> NoError" by simp
  from add_operand_atomic_on_failure [OF call ne] call ne show ?thesis by simp
qed

text \<open>
  An Immediate or a Number token that \<open>is_valid_number\<close> rejects gives \<open>InvalidNumber\<close>.
\<close>

lemma invalid_number_rejected:
  assumes "kind token = Token_Immediate \<or> kind token = Token_Number"
    and "is_valid_number (content token) = Inr False"
  shows "add_operand instr token = Inr (InvalidNumber, instr)"
  using assms by (auto simp: add_operand_def and_then_def)

section \<open>Pseudo-instructions: properties\<close>

lemma scast_nonneg:
  assumes "0 \<le> sint (k :: 16 word)"
  shows "(scast k :: 64 word) = of_nat (nat (sint k))"
proof -
  have "(scast k :: 64 word) = word_of_int (sint k)" by (rule scast_eq)
  also have "\<dots> = of_nat (nat (sint k))" by (rule of_nat_nat [OF assms, symmetric])
  finally show ?thesis .
qed

lemma blkw_new_size:
  assumes "0 \<le> sint (k :: 16 word)" and "n + nat (sint k) \<le> vector_max_size"
  shows "unat (of_nat n + (scast k :: 64 word)) = n + nat (sint k)"
proof -
  have e: "of_nat n + (scast k :: 64 word) = of_nat (n + nat (sint k))"
    by (simp only: scast_nonneg [OF assms(1)] of_nat_add)
  have lt: "n + nat (sint k) < 2 ^ 64"
    using assms(2) by (simp add: vector_max_size_def)
  have "unat (of_nat (n + nat (sint k)) :: 64 word) = n + nat (sint k)"
    using lt by (simp only: unat_of_nat) simp
  then show ?thesis by (simp only: e)
qed

text \<open>The validator accepts every count of \<open>.BLKW\<close>, also a negative one.\<close>

lemma blkw_validator_accepts_every_count:
  "fst (validate_and_emit_diagnostics
     \<lparr>get_label = l, get_operands = [NumberOperand k], get_opcode = BLKWOp, get_address = a\<rparr>)"
proof -
  have "- 32768 \<le> sint k" "sint k \<le> 32767"
    using sint_ge [of k] sint_lt [of k] by simp_all
  then show ?thesis
    by (simp add: validate_and_emit_diagnostics_def allows_label_def
          is_integer_operand_def integer_of_operand_def Let_def)
qed

text \<open>
  Claim C6, as amended. A valid \<open>.BLKW\<close> instruction has exactly one operand, a Number
  \<open>k\<close> (the validator accepts every \<open>k\<close> of \<open>[INT16_MIN, INT16_MAX]\<close>). When
  \<open>k\<close> is not negative, and the vector stays within \<open>max_size ()\<close>, encoding appends
  exactly \<open>k\<close> zero words to the end of the word stream and leaves the words emitted
  before unchanged. Nothing is said of a negative \<open>k\<close>.
\<close>

theorem blkw_appends_zero_words:
  assumes "fst (validate_and_emit_diagnostics instr)" and "get_opcode instr = BLKWOp"
  shows "\<exists>k. get_operands instr = [NumberOperand k] \<and>
           (0 \<le> sint k \<and> length results + nat (sint k) \<le> vector_max_size \<longrightarrow>
              translate_pseudo char_is_signed instr results
                = Inr (results @ replicate (nat (sint k)) 0))"
proof -
  from validated_BLKW [OF assms] obtain k where k: "get_operands instr = [NumberOperand k]"
    by blast
  have "translate_pseudo char_is_signed instr results
          = Inr (results @ replicate (nat (sint k)) 0)"
    if "0 \<le> sint k" and "length results + nat (sint k) \<le> vector_max_size"
    using that k assms(2) blkw_new_size [OF that]
    by (simp add: translate_pseudo_def get_operand_def and_then_def resize_def)
  with k show ?thesis by blast
qed

theorem blkw_appends_zero_words_witness:
  "fst (validate_and_emit_diagnostics
     \<lparr>get_label = [], get_operands = [NumberOperand 3], get_opcode = BLKWOp, get_address = 0\<rparr>)
   \<and> translate_pseudo True
     \<lparr>get_label = [], get_operands = [NumberOperand 3], get_opcode = BLKWOp, get_address = 0\<rparr>
     [7]
     = Inr [7, 0, 0, 0]"
proof -
  let ?i = "\<lparr>get_label = [], get_operands = [NumberOperand 3], get_opcode = BLKWOp,
             get_address = 0\<rparr>"
  have v: "fst (validate_and_emit_diagnostics ?i)"
    by (simp add: validate_and_emit_diagnostics_def allows_label_def has_label_def
          is_integer_operand_def integer_of_operand_def Let_def)
  have o: "get_opcode ?i = BLKWOp" by simp
  from blkw_appends_zero_words [OF v o, of "[7]" True]
  have "translate_pseudo True ?i [7] = Inr ([7] @ replicate (nat (sint (3 :: 16 word))) 0)"
    by (simp add: vector_max_size_def)
  then have "translate_pseudo True ?i [7] = Inr [7, 0, 0, 0]"
    by (simp add: numeral_3_eq_3)
  with v show ?thesis by simp
qed

text \<open>
  Claim C6 as stated fails for a negative count: \<open>.BLKW -1\<close> passes the validator, and
  on a stream that holds the word 7 the new size \<open>1 + (std::size_t) -1\<close> is 0, so
  \<open>resize\<close> removes the word emitted before.
\<close>

theorem blkw_negative_count_counterexample:
  "fst (validate_and_emit_diagnostics
     \<lparr>get_label = [], get_operands = [NumberOperand (- 1)], get_opcode = BLKWOp,
        get_address = 0\<rparr>)
   \<and> translate_pseudo True
     \<lparr>get_label = [], get_operands = [NumberOperand (- 1)], get_opcode = BLKWOp,
        get_address = 0\<rparr> [7]
     = Inr []"
  by (simp add: validate_and_emit_diagnostics_def allows_label_def has_label_def
        is_integer_operand_def integer_of_operand_def Let_def
        translate_pseudo_def get_operand_def and_then_def resize_def vector_max_size_def)

lemma uint16_of_char_zero_extends:
  "\<not> char_is_signed \<or> (of_char c :: nat) < 128
   \<Longrightarrow> uint16_of_char char_is_signed c = of_nat (of_char c)"
  by (auto simp: uint16_of_char_def)

text \<open>
  Where plain \<open>char\<close> is signed, a byte from \<open>0x80\<close> on is a negative \<open>char\<close>, and the
  conversion to \<open>std::uint16_t\<close> sets the eight high bits of the word.
\<close>

lemma high_byte_or:
  assumes "n < 256"
  shows "(0xFF00 :: 16 word) OR of_nat n = of_nat n - 256"
proof -
  have disjoint: "\<not> bit (0xFF00 :: 16 word) k \<or> \<not> bit (of_nat n :: 16 word) k" for k
  proof (cases "k < 8")
    case True
    have "(0xFF00 :: 16 word) = push_bit 8 0xFF" by simp
    with True have "\<not> bit (0xFF00 :: 16 word) k"
      by (simp only: bit_push_bit_iff) simp
    then show ?thesis ..
  next
    case False
    have "(of_nat n :: 16 word) = take_bit 8 (of_nat n)"
      using assms by (simp add: take_bit_nat_eq_self flip: of_nat_take_bit)
    moreover from False have "\<not> bit (take_bit 8 (of_nat n :: 16 word)) k"
      by (simp add: bit_take_bit_iff)
    ultimately have "\<not> bit (of_nat n :: 16 word) k" by simp
    then show ?thesis ..
  qed
  have "(0xFF00 :: 16 word) OR of_nat n = 0xFF00 + of_nat n"
    by (rule disjunctive_add [symmetric]) (rule disjoint)
  also have "\<dots> = of_nat n - 256" by simp
  finally show ?thesis .
qed

lemma uint16_of_char_sign_extends:
  assumes "char_is_signed" and "128 \<le> (of_char c :: nat)"
  shows "uint16_of_char char_is_signed c = 0xFF00 OR of_nat (of_char c)"
proof -
  have "(of_char c :: nat) < 256" by simp
  from high_byte_or [OF this] assms show ?thesis
    by (simp add: uint16_of_char_def)
qed

text \<open>
  Claim C7, as amended. A valid \<open>.STRINGZ\<close> instruction has exactly one operand, a
  string literal \<open>s\<close>; encoding appends one word for each byte of \<open>s\<close> and then exactly
  one zero word, and leaves the words emitted before as they were. The word of a byte
  below \<open>0x80\<close> is the zero extension of the byte, and so is the word of every byte where
  plain \<open>char\<close> is unsigned. Nothing is said of the word of a byte from \<open>0x80\<close> on where
  plain \<open>char\<close> is signed.
\<close>

theorem stringz_emits_bytes_and_nul:
  assumes "fst (validate_and_emit_diagnostics instr)" and "get_opcode instr = STRINGZOp"
  shows "\<exists>s ws. get_operands instr = [StringLiteralOperand s] \<and>
           translate_pseudo char_is_signed instr results = Inr (results @ ws @ [0]) \<and>
           length ws = length s \<and>
           (\<forall>i < length s. \<not> char_is_signed \<or> (of_char (s ! i) :: nat) < 128
              \<longrightarrow> ws ! i = of_nat (of_char (s ! i)))"
proof -
  from validated_STRINGZ [OF assms] obtain s
    where s: "get_operands instr = [StringLiteralOperand s]" by blast
  let ?ws = "map (uint16_of_char char_is_signed) s"
  have "translate_pseudo char_is_signed instr results = Inr (results @ ?ws @ [0])"
    using s assms(2) by (simp add: translate_pseudo_def get_operand_def and_then_def)
  moreover have "length ?ws = length s" by simp
  moreover have "?ws ! i = of_nat (of_char (s ! i))"
    if "i < length s" and "\<not> char_is_signed \<or> (of_char (s ! i) :: nat) < 128" for i
    using that by (simp add: uint16_of_char_zero_extends)
  ultimately show ?thesis using s by blast
qed

theorem stringz_emits_bytes_and_nul_witness:
  "fst (validate_and_emit_diagnostics
     \<lparr>get_label = ''HELLO'', get_operands = [StringLiteralOperand ''Hi''],
        get_opcode = STRINGZOp, get_address = 0\<rparr>)
   \<and> translate_pseudo True
     \<lparr>get_label = ''HELLO'', get_operands = [StringLiteralOperand ''Hi''],
        get_opcode = STRINGZOp, get_address = 0\<rparr> [7]
     = Inr [7, 0x48, 0x69, 0]"
proof -
  let ?i = "\<lparr>get_label = ''HELLO'', get_operands = [StringLiteralOperand ''Hi''],
        get_opcode = STRINGZOp, get_address = 0\<rparr>"
  have v: "fst (validate_and_emit_diagnostics ?i)"
    by (simp add: validate_and_emit_diagnostics_def allows_label_def has_label_def
          is_integer_operand_def integer_of_operand_def Let_def)
  have o: "get_opcode ?i = STRINGZOp" by simp
  from stringz_emits_bytes_and_nul [OF v o, of True "[7]"] obtain s ws
    where s: "get_operands ?i = [StringLiteralOperand s]"
      and t: "translate_pseudo True ?i [7] = Inr ([7] @ ws @ [0])"
      and l: "length ws = length s"
      and w: "\<forall>i < length s. \<not> True \<or> (of_char (s ! i) :: nat) < 128
                \<longrightarrow> ws ! i = of_nat (of_char (s ! i))"
    by blast
  from s have hi: "s = ''Hi''" by simp
  from l hi obtain a b where ws: "ws = [a, b]"
    by (cases ws; cases "tl ws") auto
  from w [rule_format, of 0] hi ws have "a = 0x48" by simp
  moreover from w [rule_format, of 1] hi ws have "b = 0x69" by simp
  ultimately have "translate_pseudo True ?i [7] = Inr [7, 0x48, 0x69, 0]"
    using t ws by simp
  with v show ?thesis by simp
qed

text \<open>
  Claim C7 as stated fails where plain \<open>char\<close> is signed: the byte \<open>0xE9\<close> of a
  valid \<open>.STRINGZ\<close> is emitted as \<open>0xFFE9\<close>, and its zero extension is \<open>0x00E9\<close>.
\<close>

theorem stringz_signed_char_counterexample:
  "fst (validate_and_emit_diagnostics
     \<lparr>get_label = [], get_operands = [StringLiteralOperand [CHR 0xE9]],
        get_opcode = STRINGZOp, get_address = 0\<rparr>)
   \<and> translate_pseudo True
     \<lparr>get_label = [], get_operands = [StringLiteralOperand [CHR 0xE9]],
        get_opcode = STRINGZOp, get_address = 0\<rparr> []
     = Inr [0xFFE9, 0]
   \<and> (of_nat (of_char (CHR 0xE9)) :: 16 word) = 0x00E9"
  by (simp add: validate_and_emit_diagnostics_def allows_label_def has_label_def
        is_integer_operand_def integer_of_operand_def Let_def
        translate_pseudo_def get_operand_def and_then_def uint16_of_char_def)

section \<open>Encoding: the accessors\<close>

text \<open>
  Claim C9 fails on the code. \<open>BRn #1\<close> passes \<open>validate_and_emit_diagnostics\<close> (the
  branches and \<open>JSR\<close> accept an Immediate operand), and encoding it calls
  \<open>translate_label\<close>, which reads the operand through \<open>Operand::label\<close>: the assertion
  \<open>type_ == Label\<close> fails. The case \<open>BRz\<close> of the same \<open>switch\<close> looks at the
  operand's type first and encodes the same operand with \<open>translate_immediate\<close>.
\<close>

theorem branch_immediate_assertion_fails:
  "fst (validate_and_emit_diagnostics
     \<lparr>get_label = [], get_operands = [ImmediateOperand 1], get_opcode = BRnOp,
        get_address = 0x3001\<rparr>)
   \<and> translate_regular_instruction Map.empty
     \<lparr>get_label = [], get_operands = [ImmediateOperand 1], get_opcode = BRnOp,
        get_address = 0x3001\<rparr>
     = Inl AssertionFailed
   \<and> translate_regular_instruction Map.empty
     \<lparr>get_label = [], get_operands = [ImmediateOperand 1], get_opcode = BRzOp,
        get_address = 0x3001\<rparr>
     = Inr (0x0401, [])"
  by (simp add: validate_and_emit_diagnostics_def allows_label_def has_label_def
        is_integer_operand_def integer_of_operand_def Let_def
        translate_regular_instruction_def or_label_def or_immediate_def no_diag_def
        translate_label_def translate_immediate_def get_operand_def and_then_def)

text \<open>The same holds for every branch but \<open>BRz\<close>, and for \<open>JSR\<close>.\<close>

lemma label_accessor_on_immediate:
  assumes "get_opcode instr \<in> set [BROp, BRnOp, BRpOp, BRzpOp, BRnpOp, BRnzOp, BRnzpOp, JSROp]"
    and "get_operands instr = [ImmediateOperand v]"
  shows "translate_regular_instruction table instr = Inl AssertionFailed"
  using assms
  by (auto simp: translate_regular_instruction_def or_label_def translate_label_def
        get_operand_def and_then_def)

section \<open>\<open>Assembler::run\<close>: the checks of \<open>.ORIG\<close>\<close>

lemma validate_all_no_diag:
  "\<not> fst (validate_all instrs) \<Longrightarrow> snd (validate_all instrs) = []"
  by (induction instrs) (auto simp: Let_def validated_no_diag split: if_splits)

lemma validate_all_valid:
  "\<not> fst (validate_all instrs) \<Longrightarrow> instr \<in> set instrs
   \<Longrightarrow> fst (validate_and_emit_diagnostics instr)"
  by (induction instrs) (auto simp: Let_def split: if_splits)

text \<open>
  On the empty sequence \<open>run\<close> does not return: the guard \<open>!instructions_.empty ()\<close>
  lets it pass the check of the first instruction, and \<open>std::next (begin ())\<close> is then
  past the end of the vector.
\<close>

lemma run_empty_sequence:
  "run char_is_signed \<lparr>instructions = [], symbol_table = table\<rparr> = Inl OutOfBounds"
  by (simp add: run_def)

text \<open>An instruction that fails validation prints exactly one line.\<close>

lemma invalid_one_diag:
  "\<not> fst (validate_and_emit_diagnostics instr)
   \<Longrightarrow> \<exists>d. snd (validate_and_emit_diagnostics instr) = [d]"
  by (auto simp: validate_and_emit_diagnostics_def Let_def
           split: if_splits option.splits sum.splits)

text \<open>
  The loop of the validation prints the line of the first instruction that fails and
  nothing else: the instructions before it are valid and print nothing, and
  \<open>std::any_of\<close> does not look at the instructions after it.
\<close>

lemma validate_all_first_invalid:
  "validate_all instrs =
     (case find (\<lambda>instr. \<not> fst (validate_and_emit_diagnostics instr)) instrs of
        None \<Rightarrow> (False, [])
      | Some bad \<Rightarrow> (True, snd (validate_and_emit_diagnostics bad)))"
  by (induction instrs) (auto simp: Let_def validated_no_diag split: option.splits)

text \<open>
  Claim C5, as amended. For every sequence of instructions that is not empty and does
  not consist of exactly one leading \<open>.ORIG\<close> (the first instruction is not \<open>.ORIG\<close>,
  or a later one is), \<open>Assembler::run\<close> returns an empty word stream and leaves the
  assembler as it was. When every instruction passes validation it prints exactly the
  \<open>.ORIG\<close>-missing line (the first instruction is not \<open>.ORIG\<close>) or the
  \<open>.ORIG\<close>-duplicate line; when an instruction fails validation it prints the one line
  of the first such instruction and nothing else. Nothing is said of the empty sequence.
\<close>

theorem run_rejects_missing_or_duplicate_orig:
  assumes "instrs \<noteq> []"
    and "get_opcode (hd instrs) \<noteq> ORIGOp
         \<or> list_ex (\<lambda>instr. get_opcode instr = ORIGOp) (tl instrs)"
  shows "\<exists>out. run char_is_signed \<lparr>instructions = instrs, symbol_table = table\<rparr>
                 = Inr (\<lparr>instructions = instrs, symbol_table = table\<rparr>, [], out) \<and>
           (case find (\<lambda>instr. \<not> fst (validate_and_emit_diagnostics instr)) instrs of
              Some bad \<Rightarrow> out = snd (validate_and_emit_diagnostics bad) \<and> length out = 1
            | None \<Rightarrow>
                out = (if get_opcode (hd instrs) \<noteq> ORIGOp then [OrigMissing (hd instrs)]
                       else [MultipleOrig]))"
proof (cases "find (\<lambda>instr. \<not> fst (validate_and_emit_diagnostics instr)) instrs")
  case None
  then have "validate_all instrs = (False, [])"
    by (simp add: validate_all_first_invalid)
  with assms None show ?thesis
    by (auto simp: run_def Let_def)
next
  case (Some bad)
  then have v: "validate_all instrs = (True, snd (validate_and_emit_diagnostics bad))"
    by (simp add: validate_all_first_invalid)
  from Some have "\<not> fst (validate_and_emit_diagnostics bad)"
    by (auto simp: find_Some_iff)
  from invalid_one_diag [OF this] have "length (snd (validate_and_emit_diagnostics bad)) = 1"
    by auto
  with v Some show ?thesis
    by (simp add: run_def Let_def)
qed

theorem run_rejects_missing_or_duplicate_orig_witness:
  "run True
     \<lparr>instructions =
        [\<lparr>get_label = [], get_operands = [RegisterOperand 1, RegisterOperand 2, RegisterOperand 3],
           get_opcode = ADDOp, get_address = 0\<rparr>,
         \<lparr>get_label = [], get_operands = [], get_opcode = ENDOp, get_address = 0\<rparr>],
      symbol_table = Map.empty\<rparr>
   = Inr (\<lparr>instructions =
        [\<lparr>get_label = [], get_operands = [RegisterOperand 1, RegisterOperand 2, RegisterOperand 3],
           get_opcode = ADDOp, get_address = 0\<rparr>,
         \<lparr>get_label = [], get_operands = [], get_opcode = ENDOp, get_address = 0\<rparr>],
      symbol_table = Map.empty\<rparr>, [],
      [OrigMissing \<lparr>get_label = [], get_operands = [RegisterOperand 1, RegisterOperand 2, RegisterOperand 3],
           get_opcode = ADDOp, get_address = 0\<rparr>])
   \<and> run True
     \<lparr>instructions =
        [\<lparr>get_label = [], get_operands = [ImmediateOperand 0x3000], get_opcode = ORIGOp,
           get_address = 0\<rparr>,
         \<lparr>get_label = [], get_operands = [RegisterOperand 1], get_opcode = ADDOp,
           get_address = 0\<rparr>,
         \<lparr>get_label = [], get_operands = [RegisterOperand 1, RegisterOperand 2, ImmediateOperand 16],
           get_opcode = ANDOp, get_address = 0\<rparr>,
         \<lparr>get_label = [], get_operands = [ImmediateOperand 0x4000], get_opcode = ORIGOp,
           get_address = 0\<rparr>],
      symbol_table = Map.empty\<rparr>
   = Inr (\<lparr>instructions =
        [\<lparr>get_label = [], get_operands = [ImmediateOperand 0x3000], get_opcode = ORIGOp,
           get_address = 0\<rparr>,
         \<lparr>get_label = [], get_operands = [RegisterOperand 1], get_opcode = ADDOp,
           get_address = 0\<rparr>,
         \<lparr>get_label = [], get_operands = [RegisterOperand 1, RegisterOperand 2, ImmediateOperand 16],
           get_opcode = ANDOp, get_address = 0\<rparr>,
         \<lparr>get_label = [], get_operands = [ImmediateOperand 0x4000], get_opcode = ORIGOp,
           get_address = 0\<rparr>],
      symbol_table = Map.empty\<rparr>, [],
      [OperandCountMismatch
         \<lparr>get_label = [], get_operands = [RegisterOperand 1], get_opcode = ADDOp,
           get_address = 0\<rparr> 3 1])"
proof -
  let ?add = "\<lparr>get_label = [], get_operands = [RegisterOperand 1, RegisterOperand 2, RegisterOperand 3],
           get_opcode = ADDOp, get_address = 0\<rparr>"
  let ?end = "\<lparr>get_label = [], get_operands = [], get_opcode = ENDOp, get_address = 0\<rparr>"
  let ?o1 = "\<lparr>get_label = [], get_operands = [ImmediateOperand 0x3000], get_opcode = ORIGOp,
           get_address = 0\<rparr>"
  let ?short = "\<lparr>get_label = [], get_operands = [RegisterOperand 1], get_opcode = ADDOp,
           get_address = 0\<rparr>"
  let ?wide = "\<lparr>get_label = [], get_operands = [RegisterOperand 1, RegisterOperand 2, ImmediateOperand 16],
           get_opcode = ANDOp, get_address = 0\<rparr>"
  let ?o2 = "\<lparr>get_label = [], get_operands = [ImmediateOperand 0x4000], get_opcode = ORIGOp,
           get_address = 0\<rparr>"
  let ?invalid = "\<lambda>instr. \<not> fst (validate_and_emit_diagnostics instr)"
  have va: "fst (validate_and_emit_diagnostics ?add)" "fst (validate_and_emit_diagnostics ?end)"
    "fst (validate_and_emit_diagnostics ?o1)"
    by (simp_all add: validate_and_emit_diagnostics_def allows_label_def has_label_def
          is_integer_operand_def integer_of_operand_def Let_def)
  have vs: "validate_and_emit_diagnostics ?short = (False, [OperandCountMismatch ?short 3 1])"
    by (simp add: validate_and_emit_diagnostics_def allows_label_def has_label_def Let_def)
  have f1: "find ?invalid [?add, ?end] = None"
    using va by simp
  have f2: "find ?invalid [?o1, ?short, ?wide, ?o2] = Some ?short"
    using va vs by simp
  have ne1: "[?add, ?end] \<noteq> []" and ne2: "[?o1, ?short, ?wide, ?o2] \<noteq> []"
    by simp_all
  have no1: "get_opcode (hd [?add, ?end]) \<noteq> ORIGOp
         \<or> list_ex (\<lambda>instr. get_opcode instr = ORIGOp) (tl [?add, ?end])" by simp
  have no2: "get_opcode (hd [?o1, ?short, ?wide, ?o2]) \<noteq> ORIGOp
         \<or> list_ex (\<lambda>instr. get_opcode instr = ORIGOp) (tl [?o1, ?short, ?wide, ?o2])"
    by simp
  from run_rejects_missing_or_duplicate_orig [OF ne1 no1, of True Map.empty] f1
  have r1: "run True \<lparr>instructions = [?add, ?end], symbol_table = Map.empty\<rparr>
            = Inr (\<lparr>instructions = [?add, ?end], symbol_table = Map.empty\<rparr>, [],
                   [OrigMissing ?add])"
    by (simp only: option.case list.sel) simp
  from run_rejects_missing_or_duplicate_orig [OF ne2 no2, of True Map.empty] f2 vs
  have r2: "run True \<lparr>instructions = [?o1, ?short, ?wide, ?o2], symbol_table = Map.empty\<rparr>
            = Inr (\<lparr>instructions = [?o1, ?short, ?wide, ?o2], symbol_table = Map.empty\<rparr>, [],
                   [OperandCountMismatch ?short 3 1])"
    by (simp only: option.case snd_conv) simp
  from r1 r2 show ?thesis by (rule conjI)
qed

text \<open>
  Claim C5 as stated fails where an instruction is not valid: the sequence of the one
  instruction \<open>ADD R1, R2, #16\<close> has no \<open>.ORIG\<close>, and \<open>run\<close> prints the line of the
  immediate out of range and no line about \<open>.ORIG\<close>.
\<close>

theorem run_validation_first_counterexample:
  "get_opcode \<lparr>get_label = [],
       get_operands = [RegisterOperand 1, RegisterOperand 2, ImmediateOperand 16],
       get_opcode = ADDOp, get_address = 0\<rparr> \<noteq> ORIGOp
   \<and> run True
     \<lparr>instructions =
        [\<lparr>get_label = [],
           get_operands = [RegisterOperand 1, RegisterOperand 2, ImmediateOperand 16],
           get_opcode = ADDOp, get_address = 0\<rparr>],
      symbol_table = Map.empty\<rparr>
   = Inr (\<lparr>instructions =
        [\<lparr>get_label = [],
           get_operands = [RegisterOperand 1, RegisterOperand 2, ImmediateOperand 16],
           get_opcode = ADDOp, get_address = 0\<rparr>],
      symbol_table = Map.empty\<rparr>, [],
      [ImmediateOutOfRange (ImmediateOperand 16)
         \<lparr>get_label = [],
           get_operands = [RegisterOperand 1, RegisterOperand 2, ImmediateOperand 16],
           get_opcode = ADDOp, get_address = 0\<rparr> (- 16) 15])"
  by (simp add: run_def validate_and_emit_diagnostics_def allows_label_def has_label_def
        is_integer_operand_def integer_of_operand_def Let_def)

section \<open>The lexer: the classification of identifiers\<close>

lemma char_eq_code: "(ch = d) = ((of_char ch :: nat) = of_char d)"
  by simp


lemma octal_range:
  "(48 \<le> (of_char ch :: nat) \<and> (of_char ch :: nat) < 56) \<longleftrightarrow> ch \<in> set ''01234567''"
  by (simp add: char_eq_code [of ch]) arith

lemma hex_range:
  "is_hex_digit ch \<longleftrightarrow> ch \<in> set ''0123456789abcdefABCDEF''"
  unfolding is_hex_digit_def
  by (simp add: char_eq_code [of ch]) arith

lemma binary_range: "is_binary_digit ch \<longleftrightarrow> ch \<in> set ''01''"
  by (auto simp: is_binary_digit_def)

lemma is_valid_register_spec:
  "is_valid_register s \<longleftrightarrow> length s = 2 \<and> hd s = CHR ''R'' \<and> last s \<in> set ''01234567''"
proof (cases "length s = 2")
  case True
  then obtain a b where s: "s = [a, b]"
    by (cases s; cases "tl s") auto
  show ?thesis unfolding s is_valid_register_def using octal_range [of b] by simp
next
  case False
  then show ?thesis by (simp add: is_valid_register_def)
qed

lemma may_be_valid_immediate_number_spec:
  "s \<noteq> [] \<Longrightarrow> may_be_valid_immediate_number s \<longleftrightarrow>
     (hd s = CHR ''x'' \<and> set (tl s) \<subseteq> set ''0123456789abcdefABCDEF'')
     \<or> (hd s = CHR ''b'' \<and> set (tl s) \<subseteq> set ''01'')"
  by (cases s) (auto simp: may_be_valid_immediate_number_def list_all_iff hex_range binary_range
                     simp del: set_simps)

lemma if_disj: "(if A \<or> B then x else y) = (if A then x else if B then x else y)"
  by simp

lemma identifier_kind_spec:
  assumes "s \<noteq> []"
  shows "identifier_kind s = spec_identifier_kind s"
  unfolding identifier_kind_def spec_identifier_kind_def is_valid_opcode_def
  by (simp only: is_valid_register_spec may_be_valid_immediate_number_spec [OF assms] if_disj)

lemma isalpha_not_special:
  assumes "isalpha_c c"
  shows "c \<noteq> CHR 0x0A" "c \<noteq> CHR 0x0D" "c \<noteq> CHR '' ''" "c \<noteq> CHR 0x09" "c \<noteq> CHR 0x0C"
    "c \<noteq> CHR 0x0B" "c \<noteq> CHR '',''" "c \<noteq> CHR ''#''" "c \<noteq> CHR 0x22" "\<not> isdigit_c c"
    "c \<noteq> CHR ''+''" "c \<noteq> CHR ''-''"
  using assms by (auto simp: isalpha_c_def isdigit_c_def)

lemma lex_identifier_run:
  assumes "list_all isalnum_c ident" and "rest = [] \<or> \<not> isalnum_c (hd rest)"
  shows "lex_identifier (ident @ rest) = rest"
proof -
  have "dropWhile isalnum_c (ident @ rest) = dropWhile isalnum_c rest"
    using assms(1) by (simp add: list_all_iff dropWhile_append2)
  also have "\<dots> = rest" using assms(2) by (cases rest) auto
  finally show ?thesis by (simp add: lex_identifier_def)
qed

text \<open>
  Claim C8. For every run of alphanumeric characters that begins with an ASCII letter
  (the run ends at the end of the source or before a character that is not
  alphanumeric), \<open>next_token\<close> returns the run as one token whose kind is the one the
  rules of the specification give, tried in order: an exact, case-sensitive match
  against the opcodes; length 2 with \<open>R\<close> and \<open>0\<close> to \<open>7\<close>; a lowercase \<open>x\<close> and
  hex digits only, or a lowercase \<open>b\<close> and binary digits only (also when nothing
  follows the prefix); otherwise a label. In particular \<open>add\<close>, \<open>Add\<close> and
  \<open>X1234\<close> are labels, and \<open>.orig\<close> and \<open>.End\<close> are unknown tokens.
\<close>

theorem lexer_classifies_identifiers:
  assumes "isalpha_c c" and "list_all isalnum_c ident" and "rest = [] \<or> \<not> isalnum_c (hd rest)"
  shows "next_token (c # ident @ rest)
           = (\<lparr>kind = spec_identifier_kind (c # ident), content = c # ident\<rparr>, rest)
         \<and> spec_identifier_kind ''add'' = Token_Label
         \<and> spec_identifier_kind ''Add'' = Token_Label
         \<and> spec_identifier_kind ''X1234'' = Token_Label
         \<and> spec_identifier_kind ''x'' = Token_Immediate
         \<and> next_token ''.orig'' = (\<lparr>kind = Token_Unknown, content = ''.orig''\<rparr>, [])
         \<and> next_token ''.End'' = (\<lparr>kind = Token_Unknown, content = ''.End''\<rparr>, [])"
proof -
  have "next_token (c # ident @ rest)
           = (\<lparr>kind = spec_identifier_kind (c # ident), content = c # ident\<rparr>, rest)"
    using isalpha_not_special [OF assms(1)] assms(1)
    by (simp add: next_token.simps lex_identifier_run [OF assms(2,3)] make_token_def
          identifier_kind_spec)
  moreover have "spec_identifier_kind ''add'' = Token_Label"
    "spec_identifier_kind ''Add'' = Token_Label"
    "spec_identifier_kind ''X1234'' = Token_Label"
    "spec_identifier_kind ''x'' = Token_Immediate"
    by (simp_all add: spec_identifier_kind_def opcodes_def)
  moreover have "next_token ''.orig'' = (\<lparr>kind = Token_Unknown, content = ''.orig''\<rparr>, [])"
    "next_token ''.End'' = (\<lparr>kind = Token_Unknown, content = ''.End''\<rparr>, [])"
    by (simp_all add: next_token.simps make_token_def lex_identifier_def isalnum_c_def
          isalpha_c_def isdigit_c_def is_valid_pseudo_def pseudos_def)
  ultimately show ?thesis by simp
qed

theorem lexer_classifies_identifiers_witness:
  "next_token ''add R1'' = (\<lparr>kind = Token_Label, content = ''add''\<rparr>, '' R1'')
   \<and> next_token ''X1234,'' = (\<lparr>kind = Token_Label, content = ''X1234''\<rparr>, '','')
   \<and> next_token ''ADD'' = (\<lparr>kind = Token_Opcode, content = ''ADD''\<rparr>, [])
   \<and> next_token ''R7'' = (\<lparr>kind = Token_Register, content = ''R7''\<rparr>, [])
   \<and> next_token ''x3000'' = (\<lparr>kind = Token_Immediate, content = ''x3000''\<rparr>, [])"
proof -
  have al: "isalpha_c CHR ''a''" "isalpha_c CHR ''X''" "isalpha_c CHR ''A''" "isalpha_c CHR ''R''"
    "isalpha_c CHR ''x''"
    by (simp_all add: isalpha_c_def)
  have runs: "list_all isalnum_c ''dd''" "list_all isalnum_c ''1234''" "list_all isalnum_c ''DD''"
    "list_all isalnum_c ''7''" "list_all isalnum_c ''3000''"
    by (simp_all add: isalnum_c_def isalpha_c_def isdigit_c_def)
  have rests: "'' R1'' = [] \<or> \<not> isalnum_c (hd '' R1'')" "'','' = [] \<or> \<not> isalnum_c (hd '','')"
    "([] :: string) = [] \<or> \<not> isalnum_c (hd [])"
    by (simp_all add: isalnum_c_def isalpha_c_def isdigit_c_def)
  from lexer_classifies_identifiers [OF al(1) runs(1) rests(1)]
       lexer_classifies_identifiers [OF al(2) runs(2) rests(2)]
       lexer_classifies_identifiers [OF al(3) runs(3) rests(3)]
       lexer_classifies_identifiers [OF al(4) runs(4) rests(3)]
       lexer_classifies_identifiers [OF al(5) runs(5) rests(3)]
  show ?thesis
    by (simp add: spec_identifier_kind_def opcodes_def)
qed

section \<open>Pass 1: the addresses\<close>

lemma address_increment_valid:
  assumes "fst (validate_and_emit_diagnostics instr)"
  shows "address_increment instr = Inr (pass1_increment instr)"
proof (cases "get_opcode instr = BLKWOp")
  case True
  from validated_BLKW [OF assms True] obtain k where "get_operands instr = [NumberOperand k]"
    by blast
  with True show ?thesis
    by (simp add: address_increment_def pass1_increment_def get_operand_def and_then_def)
next
  case False
  note nb = this
  show ?thesis
  proof (cases "get_opcode instr = STRINGZOp")
    case True
    from validated_STRINGZ [OF assms True] obtain s
      where "get_operands instr = [StringLiteralOperand s]" by blast
    with True show ?thesis
      by (simp add: address_increment_def pass1_increment_def get_operand_def and_then_def)
  next
    case False
    with nb show ?thesis
      by (cases "get_opcode instr") (simp_all add: address_increment_def pass1_increment_def)
  qed
qed

lemma assign_from_valid:
  assumes "list_all (\<lambda>instr. fst (validate_and_emit_diagnostics instr)) instrs"
  shows "\<exists>instrs'. assign_from a instrs = Inr instrs' \<and> length instrs' = length instrs
           \<and> (\<forall>i < length instrs. instrs' ! i = set_address (instrs ! i) (get_address (instrs' ! i)))
           \<and> (instrs \<noteq> [] \<longrightarrow> get_address (instrs' ! 0) = a)
           \<and> (\<forall>i. Suc i < length instrs \<longrightarrow>
                 get_address (instrs' ! Suc i)
                   = get_address (instrs' ! i) + pass1_increment (instrs ! i))"
  using assms
proof (induction instrs arbitrary: a)
  case Nil
  then show ?case by simp
next
  case (Cons instr rest)
  from Cons.prems have v: "fst (validate_and_emit_diagnostics instr)"
    and vr: "list_all (\<lambda>instr. fst (validate_and_emit_diagnostics instr)) rest"
    by simp_all
  from Cons.IH [OF vr, of "a + pass1_increment instr"] obtain rest'
    where r: "assign_from (a + pass1_increment instr) rest = Inr rest'"
      and l: "length rest' = length rest"
      and same: "\<forall>i < length rest. rest' ! i = set_address (rest ! i) (get_address (rest' ! i))"
      and first: "rest \<noteq> [] \<longrightarrow> get_address (rest' ! 0) = a + pass1_increment instr"
      and step: "\<forall>i. Suc i < length rest \<longrightarrow>
                 get_address (rest' ! Suc i)
                   = get_address (rest' ! i) + pass1_increment (rest ! i)"
    by blast
  let ?res = "set_address instr a # rest'"
  have 1: "assign_from a (instr # rest) = Inr ?res"
    using r by (simp add: address_increment_valid [OF v] and_then_def)
  have 2: "length ?res = length (instr # rest)" using l by simp
  have 3: "\<forall>i < length (instr # rest).
             ?res ! i = set_address ((instr # rest) ! i) (get_address (?res ! i))"
    using same by (auto simp: nth_Cons set_address_def split: nat.splits)
  have 4: "get_address (?res ! 0) = a" by (simp add: set_address_def)
  have 5: "\<forall>i. Suc i < length (instr # rest) \<longrightarrow>
                 get_address (?res ! Suc i)
                   = get_address (?res ! i) + pass1_increment ((instr # rest) ! i)"
  proof (intro allI impI)
    fix i assume i: "Suc i < length (instr # rest)"
    show "get_address (?res ! Suc i)
                   = get_address (?res ! i) + pass1_increment ((instr # rest) ! i)"
    proof (cases i)
      case 0
      with i first show ?thesis by (auto simp: set_address_def)
    next
      case (Suc j)
      with i step show ?thesis by simp
    qed
  qed
  from 1 2 3 4 5 show ?case by blast
qed

lemma assign_addresses_valid:
  assumes "list_all (\<lambda>instr. fst (validate_and_emit_diagnostics instr)) instrs"
    and "instrs \<noteq> []" and "get_opcode (hd instrs) = ORIGOp"
  shows "\<exists>v instrs'. get_operands (hd instrs) = [ImmediateOperand v]
           \<and> assign_addresses instrs = Inr instrs' \<and> length instrs' = length instrs
           \<and> (\<forall>i < length instrs.
                 instrs' ! i = set_address (instrs ! i) (get_address (instrs' ! i)))
           \<and> get_address (instrs' ! 0) = v
           \<and> (\<forall>i. Suc i < length instrs \<longrightarrow>
                 get_address (instrs' ! Suc i)
                   = get_address (instrs' ! i) + pass1_increment (instrs ! i))"
proof -
  from assms(2) obtain front rest where fr: "instrs = front # rest" by (cases instrs) auto
  with assms have "fst (validate_and_emit_diagnostics front)" "get_opcode front = ORIGOp"
    by simp_all
  from validated_ORIG [OF this] obtain v where v: "get_operands front = [ImmediateOperand v]"
    by blast
  from assign_from_valid [OF assms(1), of v] obtain instrs'
    where r: "assign_from v instrs = Inr instrs'" and l: "length instrs' = length instrs"
      and same: "\<forall>i < length instrs.
                   instrs' ! i = set_address (instrs ! i) (get_address (instrs' ! i))"
      and first: "instrs \<noteq> [] \<longrightarrow> get_address (instrs' ! 0) = v"
      and step: "\<forall>i. Suc i < length instrs \<longrightarrow>
                 get_address (instrs' ! Suc i)
                   = get_address (instrs' ! i) + pass1_increment (instrs ! i)"
    by blast
  have "assign_addresses instrs = Inr instrs'"
    using r v fr by (simp add: assign_addresses_def get_operand_def and_then_def)
  with v fr l same first step assms(2) show ?thesis by auto
qed

text \<open>
  Claim C2. Pass 1 runs on the validated instructions. For every sequence of valid
  instructions headed by \<open>.ORIG\<close>, with the immediate operand \<open>v\<close>,
  \<open>assign_addresses\<close> returns; it changes nothing but the addresses; the \<open>.ORIG\<close>
  gets the address \<open>v\<close>, and every later instruction the address of the instruction
  before it plus that instruction's increment (\<open>pass1_increment\<close>: the Number operand
  for \<open>.BLKW\<close>, the byte length of the literal plus one for \<open>.STRINGZ\<close>, one for
  \<open>.ORIG\<close>, \<open>.END\<close>, \<open>.FILL\<close> and every real instruction), in the arithmetic of
  16-bit words, which wraps around. In particular the instruction after \<open>.ORIG\<close> gets
  \<open>v + 1\<close>.
\<close>

theorem pass1_addresses:
  assumes "list_all (\<lambda>instr. fst (validate_and_emit_diagnostics instr)) instrs"
    and "instrs \<noteq> []" and "get_opcode (hd instrs) = ORIGOp"
  shows "\<exists>v instrs'. get_operands (hd instrs) = [ImmediateOperand v]
           \<and> assign_addresses instrs = Inr instrs' \<and> length instrs' = length instrs
           \<and> (\<forall>i < length instrs.
                 instrs' ! i = set_address (instrs ! i) (get_address (instrs' ! i)))
           \<and> get_address (instrs' ! 0) = v
           \<and> (\<forall>i. Suc i < length instrs \<longrightarrow>
                 get_address (instrs' ! Suc i)
                   = get_address (instrs' ! i) + pass1_increment (instrs ! i))
           \<and> (1 < length instrs \<longrightarrow> get_address (instrs' ! 1) = v + 1)"
proof -
  from assign_addresses_valid [OF assms] obtain v instrs'
    where f: "get_operands (hd instrs) = [ImmediateOperand v]"
      "assign_addresses instrs = Inr instrs'" "length instrs' = length instrs"
      "\<forall>i < length instrs. instrs' ! i = set_address (instrs ! i) (get_address (instrs' ! i))"
      "get_address (instrs' ! 0) = v"
      and step: "\<forall>i. Suc i < length instrs \<longrightarrow>
                 get_address (instrs' ! Suc i)
                   = get_address (instrs' ! i) + pass1_increment (instrs ! i)"
    by blast
  have "get_address (instrs' ! 1) = v + 1" if "1 < length instrs"
  proof -
    from that step have "get_address (instrs' ! Suc 0)
        = get_address (instrs' ! 0) + pass1_increment (instrs ! 0)" by simp
    moreover have "pass1_increment (instrs ! 0) = 1"
      using assms(2,3) by (cases instrs) (simp_all add: pass1_increment_def)
    ultimately show ?thesis using f(5) by simp
  qed
  with f step show ?thesis by blast
qed

theorem pass1_addresses_witness:
  "assign_addresses
     [\<lparr>get_label = [], get_operands = [ImmediateOperand 0x3000], get_opcode = ORIGOp, get_address = 0\<rparr>,
      \<lparr>get_label = ''A'', get_operands = [NumberOperand 2], get_opcode = BLKWOp, get_address = 0\<rparr>,
      \<lparr>get_label = ''S'', get_operands = [StringLiteralOperand ''Hi''], get_opcode = STRINGZOp, get_address = 0\<rparr>,
      \<lparr>get_label = [], get_operands = [], get_opcode = HALTOp, get_address = 0\<rparr>,
      \<lparr>get_label = [], get_operands = [], get_opcode = ENDOp, get_address = 0\<rparr>]
   = Inr
     [\<lparr>get_label = [], get_operands = [ImmediateOperand 0x3000], get_opcode = ORIGOp, get_address = 0x3000\<rparr>,
      \<lparr>get_label = ''A'', get_operands = [NumberOperand 2], get_opcode = BLKWOp, get_address = 0x3001\<rparr>,
      \<lparr>get_label = ''S'', get_operands = [StringLiteralOperand ''Hi''], get_opcode = STRINGZOp, get_address = 0x3003\<rparr>,
      \<lparr>get_label = [], get_operands = [], get_opcode = HALTOp, get_address = 0x3006\<rparr>,
      \<lparr>get_label = [], get_operands = [], get_opcode = ENDOp, get_address = 0x3007\<rparr>]"
proof -
  let ?L = "[\<lparr>get_label = [], get_operands = [ImmediateOperand 0x3000], get_opcode = ORIGOp, get_address = 0\<rparr>,
      \<lparr>get_label = ''A'', get_operands = [NumberOperand 2], get_opcode = BLKWOp, get_address = 0\<rparr>,
      \<lparr>get_label = ''S'', get_operands = [StringLiteralOperand ''Hi''], get_opcode = STRINGZOp, get_address = 0\<rparr>,
      \<lparr>get_label = [], get_operands = [], get_opcode = HALTOp, get_address = 0\<rparr>,
      \<lparr>get_label = [], get_operands = [], get_opcode = ENDOp, get_address = 0\<rparr>]"
  have v: "list_all (\<lambda>instr. fst (validate_and_emit_diagnostics instr)) ?L"
    by (simp add: validate_and_emit_diagnostics_def allows_label_def has_label_def
          is_integer_operand_def integer_of_operand_def Let_def)
  have ne: "?L \<noteq> []" and o: "get_opcode (hd ?L) = ORIGOp" by simp_all
  have ev: "assign_addresses ?L = Inr
     [\<lparr>get_label = [], get_operands = [ImmediateOperand 0x3000], get_opcode = ORIGOp, get_address = 0x3000\<rparr>,
      \<lparr>get_label = ''A'', get_operands = [NumberOperand 2], get_opcode = BLKWOp, get_address = 0x3001\<rparr>,
      \<lparr>get_label = ''S'', get_operands = [StringLiteralOperand ''Hi''], get_opcode = STRINGZOp, get_address = 0x3003\<rparr>,
      \<lparr>get_label = [], get_operands = [], get_opcode = HALTOp, get_address = 0x3006\<rparr>,
      \<lparr>get_label = [], get_operands = [], get_opcode = ENDOp, get_address = 0x3007\<rparr>]"
    by (simp add: assign_addresses_def address_increment_def get_operand_def and_then_def
          set_address_def)
  from pass1_addresses [OF v ne o] obtain x instrs'
    where "assign_addresses ?L = Inr instrs'" and "get_address (instrs' ! 0) = x"
      and "get_operands (hd ?L) = [ImmediateOperand x]"
    by blast
  with ev show ?thesis by simp
qed

section \<open>The output of \<open>main\<close>\<close>

lemma validate_all_list_all:
  "\<not> fst (validate_all instrs)
   \<Longrightarrow> list_all (\<lambda>instr. fst (validate_and_emit_diagnostics instr)) instrs"
  by (induction instrs) (auto simp: Let_def split: if_splits)

lemma run_success:
  assumes "run cs asm = Inr (asm', binary, out)" and "binary \<noteq> []"
  shows "\<not> fst (validate_all (instructions asm))" and "instructions asm \<noteq> []"
    and "get_opcode (hd (instructions asm)) = ORIGOp"
    and "assign_addresses (instructions asm) = Inr (instructions asm')"
  using assms
  by (auto simp: run_def Let_def and_then_def split: if_splits sum.splits)

lemma output_address_no_wrap:
  assumes "i < n" and "n \<le> vector_max_size"
  shows "unat (ucast (v :: 16 word) + of_nat i :: 64 word) = unat v + i"
proof -
  have i: "i < 2 ^ 62" using assms by (simp add: vector_max_size_def)
  have v: "unat v < 2 ^ 16" using unsigned_less [of v] by simp
  have "(ucast v + of_nat i :: 64 word) = of_nat (unat v + i)"
    by simp
  moreover have "unat (of_nat (unat v + i) :: 64 word) = unat v + i"
    using i v by (simp only: unat_of_nat) simp
  ultimately show ?thesis by (simp only:)
qed

text \<open>
  Claim C4. When \<open>Assembler::run\<close> returns a word stream that is not empty (this is
  what \<open>main\<close> takes for a successful assembly), the first instruction is \<open>.ORIG\<close>
  with one Immediate operand \<open>v\<close>, \<open>main\<close> exits with 0 and prints one line for each
  word: the line of the \<open>i\<close>-th word (from 0) shows the address \<open>v + i\<close> and the
  word, where \<open>v\<close> is read as an unsigned 16-bit number and the sum, a \<open>std::size_t\<close>,
  does not wrap around. So the addresses start at the operand of \<open>.ORIG\<close> and grow by
  one for each word. \<open>.ORIG\<close> and \<open>.END\<close> add no word to the stream, hence no line.
\<close>

theorem output_addresses:
  assumes "run cs \<lparr>instructions = instrs, symbol_table = Map.empty\<rparr> = Inr (asm, binary, out)"
    and "binary \<noteq> []" and "length binary \<le> vector_max_size"
  shows "\<exists>v. get_opcode (hd instrs) = ORIGOp \<and> get_operands (hd instrs) = [ImmediateOperand v]
           \<and> main_output cs instrs
               = Inr (0, out, map (\<lambda>i. (ucast v + of_nat i, binary ! i)) [0..<length binary])
           \<and> (\<forall>i < length binary. unat (ucast v + of_nat i :: 64 word) = unat v + i)
           \<and> (\<forall>instr results. get_opcode instr = ORIGOp \<or> get_opcode instr = ENDOp \<longrightarrow>
                 translate_pseudo cs instr results = Inr results)"
proof -
  let ?asm = "\<lparr>instructions = instrs, symbol_table = Map.empty\<rparr>"
  from run_success [OF assms(1,2)]
  have va: "\<not> fst (validate_all instrs)" and ne: "instrs \<noteq> []"
    and o: "get_opcode (hd instrs) = ORIGOp"
    and a: "assign_addresses instrs = Inr (instructions asm)"
    by simp_all
  from assign_addresses_valid [OF validate_all_list_all [OF va] ne o] a
  obtain v where v: "get_operands (hd instrs) = [ImmediateOperand v]"
    and l: "length (instructions asm) = length instrs"
    and f: "get_address (instructions asm ! 0) = v"
    by auto
  from l ne have "start_address asm = Inr v"
    using f by (cases "instructions asm") (auto simp: start_address_def)
  then have m: "main_output cs instrs
               = Inr (0, out, map (\<lambda>i. (ucast v + of_nat i, binary ! i)) [0..<length binary])"
    using assms(1,2) o by (simp add: main_output_def and_then_def)
  have w: "\<forall>i < length binary. unat (ucast v + of_nat i :: 64 word) = unat v + i"
    using output_address_no_wrap [OF _ assms(3)] by blast
  have p: "\<forall>instr results. get_opcode instr = ORIGOp \<or> get_opcode instr = ENDOp \<longrightarrow>
                 translate_pseudo cs instr results = Inr results"
    by (auto simp: translate_pseudo_def)
  from o v m w p show ?thesis by blast
qed

theorem output_addresses_witness:
  "main_output True
     [\<lparr>get_label = [], get_operands = [ImmediateOperand 0x3000], get_opcode = ORIGOp,
        get_address = 0\<rparr>,
      \<lparr>get_label = ''HELLO'', get_operands = [StringLiteralOperand ''Hi''],
        get_opcode = STRINGZOp, get_address = 0\<rparr>,
      \<lparr>get_label = [], get_operands = [], get_opcode = ENDOp, get_address = 0\<rparr>]
   = Inr (0, [], [(0x3000, 0x48), (0x3001, 0x69), (0x3002, 0)])"
proof -
  let ?L = "[\<lparr>get_label = [], get_operands = [ImmediateOperand 0x3000], get_opcode = ORIGOp,
        get_address = 0\<rparr>,
      \<lparr>get_label = ''HELLO'', get_operands = [StringLiteralOperand ''Hi''],
        get_opcode = STRINGZOp, get_address = 0\<rparr>,
      \<lparr>get_label = [], get_operands = [], get_opcode = ENDOp, get_address = 0\<rparr>]"
  have "\<exists>asm. run True \<lparr>instructions = ?L, symbol_table = Map.empty\<rparr>
          = Inr (asm, [0x48, 0x69, 0], [])"
    by (simp add: run_def validate_and_emit_diagnostics_def allows_label_def has_label_def
          is_integer_operand_def integer_of_operand_def Let_def
          assign_addresses_def address_increment_def get_operand_def and_then_def
          set_address_def translate_def is_pseudo_def translate_pseudo_def uint16_of_char_def)
  then obtain asm
    where r: "run True \<lparr>instructions = ?L, symbol_table = Map.empty\<rparr>
                = Inr (asm, [0x48, 0x69, 0], [])"
    by blast
  have ne: "[0x48, 0x69, 0 :: 16 word] \<noteq> []" by simp
  have sz: "length [0x48, 0x69, 0 :: 16 word] \<le> vector_max_size"
    by (simp add: vector_max_size_def)
  from output_addresses [OF r ne sz] obtain v
    where "get_operands (hd ?L) = [ImmediateOperand v]"
      and "main_output True ?L
             = Inr (0, [], map (\<lambda>i. (ucast v + of_nat i, [0x48, 0x69, 0 :: 16 word] ! i))
                     [0..<length [0x48, 0x69, 0 :: 16 word]])"
    by blast
  then show ?thesis by simp
qed

section \<open>Encoding: the offsets of labels\<close>

















section \<open>Operand construction: the integers\<close>





























text \<open>
  The slices \<open>is_valid_number\<close> rejects are the lone prefixes, the lone signs, and the
  prefixes followed by a sign only.
\<close>

lemma is_valid_number_rejects:
  assumes "s \<noteq> []"
  shows "is_valid_number s
           = Inr (s \<notin> set [''#'', ''x'', ''b'', ''+'', ''-'',
                            ''#+'', ''#-'', ''x+'', ''x-'', ''b+'', ''b-''])"
proof -
  from assms obtain c t where s: "s = c # t" by (cases s) auto
  show ?thesis
  proof (cases t)
    case Nil
    with s show ?thesis by (auto simp: is_valid_number_def)
  next
    case (Cons d u)
    show ?thesis
    proof (cases u)
      case Nil
      with s Cons show ?thesis by (auto simp: is_valid_number_def)
    next
      case (Cons e w)
      with s \<open>t = d # u\<close> show ?thesis by (auto simp: is_valid_number_def)
    qed
  qed
qed

lemma take_prefix: "s = xs @ ys \<Longrightarrow> take (length s - length ys) s = xs"
  by simp

lemma parse_decimal_number_split:
  "\<exists>pre. s = pre @ parse_decimal_number s \<and> parse_decimal_number pre = []
         \<and> (\<forall>c r. s = c # r \<and> (isdigit_c c \<or> c = CHR ''+'' \<or> c = CHR ''-'')
               \<longrightarrow> (\<exists>p. pre = c # p))"
proof (cases s)
  case Nil
  then show ?thesis by (simp add: parse_decimal_number_def)
next
  case (Cons c r)
  show ?thesis
  proof (cases "c = CHR ''+'' \<or> c = CHR ''-''")
    case True
    have "s = (c # takeWhile isdigit_c r) @ parse_decimal_number s"
      using True Cons by (auto simp: parse_decimal_number_def)
    moreover have "parse_decimal_number (c # takeWhile isdigit_c r) = []"
      using True by (auto simp: parse_decimal_number_def dropWhile_eq_Nil_conv
          dest: set_takeWhileD)
    ultimately show ?thesis using Cons by blast
  next
    case False
    have a: "s = takeWhile isdigit_c s @ parse_decimal_number s"
      using False Cons by (auto simp: parse_decimal_number_def)
    have b: "parse_decimal_number (takeWhile isdigit_c s) = []"
      using False Cons
      by (auto simp: parse_decimal_number_def dropWhile_eq_Nil_conv dest: set_takeWhileD)
    have "\<exists>p. takeWhile isdigit_c s = c # p" if "isdigit_c c"
      using that Cons by simp
    with a b False Cons show ?thesis by (intro exI [of _ "takeWhile isdigit_c s"]) auto
  qed
qed

lemma identifier_split:
  "\<exists>pre. r = pre @ lex_identifier r \<and> list_all isalnum_c pre"
  by (intro exI [of _ "takeWhile isalnum_c r"])
     (auto simp: lex_identifier_def list_all_iff dest: set_takeWhileD)

lemma immediate_identifier:
  "identifier_kind s = Token_Immediate \<Longrightarrow> may_be_valid_immediate_number s"
  "identifier_kind s \<noteq> Token_Number"
  by (auto simp: identifier_kind_def split: if_splits)

text \<open>
  Every Immediate or Number token that \<open>next_token\<close> returns has a slice of the shape
  \<open>lexer_numeric_slice\<close> describes.
\<close>

lemma kind_make_token: "kind (fst (make_token k b e)) = k"
  by (simp add: make_token_def)

lemma content_make_token:
  "content (fst (make_token k b e)) = take (length b - length e) b"
  by (simp add: make_token_def)

lemma next_token_numeric_slice:
  "kind (fst (next_token src)) = Token_Immediate \<or> kind (fst (next_token src)) = Token_Number
   \<Longrightarrow> lexer_numeric_slice (content (fst (next_token src)))"
proof (induction src rule: next_token.induct)
  case (1 src)
  show ?case
  proof (cases src)
    case Nil
    have "next_token src = make_token Token_End src src"
      using Nil by (subst next_token.simps) simp
    with "1.prems" show ?thesis by (simp add: kind_make_token)
  next
    case (Cons c r)
    let ?ws = "c = CHR 0x0D \<or> c = CHR '' '' \<or> c = CHR 0x09 \<or> c = CHR 0x0C \<or> c = CHR 0x0B"
    let ?num = "isdigit_c c \<or> c = CHR ''+'' \<or> c = CHR ''-''"
    show ?thesis
    proof (cases "c = CHR 0x0A")
      case True
      have "next_token src = make_token Token_EOL src r"
        using Cons True by (subst next_token.simps) simp
      with "1.prems" show ?thesis by (simp add: kind_make_token)
    next
      case nl: False
      show ?thesis
      proof (cases ?ws)
        case True
        have e: "next_token src = next_token (consume_spaces r)"
          using Cons nl True by (subst next_token.simps) (simp only: list.case if_False if_True simp_thms)
        from "1.IH"(1) [OF Cons nl True] "1.prems" show ?thesis unfolding e .
      next
        case ws: False
        show ?thesis
        proof (cases "c = CHR '',''")
          case True
          have "next_token src = make_token Token_Comma src r"
            using Cons nl ws True
            by (subst next_token.simps) (simp only: list.case if_False if_True simp_thms)
          with "1.prems" show ?thesis by (simp add: kind_make_token)
        next
          case comma: False
          show ?thesis
          proof (cases "c = CHR ''#''")
            case True
            from parse_decimal_number_split [of r] obtain pre
              where pre: "r = pre @ parse_decimal_number r" "parse_decimal_number pre = []"
              by blast
            have e: "next_token src = make_token Token_Immediate src (parse_decimal_number r)"
              using Cons nl ws comma True
              by (subst next_token.simps) (simp only: list.case if_False if_True simp_thms)
            have "take (length src - length (parse_decimal_number r)) src = c # pre"
              using take_prefix [of src "c # pre" "parse_decimal_number r"] pre(1) Cons by simp
            then show ?thesis
              unfolding e content_make_token
              using True pre(2) by (simp add: lexer_numeric_slice_def)
          next
            case hash: False
            show ?thesis
            proof (cases "c = CHR 0x22")
              case True
              have "next_token src = make_token Token_String src (parse_string_literal r)"
                using Cons nl ws comma hash True
                by (subst next_token.simps) (simp only: list.case if_False if_True simp_thms)
              with "1.prems" show ?thesis by (simp add: kind_make_token)
            next
              case quote: False
              show ?thesis
              proof (cases ?num)
                case True
                from parse_decimal_number_split [of src] obtain pre0
                  where a: "src = pre0 @ parse_decimal_number src"
                    "parse_decimal_number pre0 = []"
                    and b: "\<forall>c r. src = c # r
                             \<and> (isdigit_c c \<or> c = CHR ''+'' \<or> c = CHR ''-'')
                               \<longrightarrow> (\<exists>p. pre0 = c # p)"
                  by blast
                from b Cons True obtain p where "pre0 = c # p" by blast
                with a have pre: "src = (c # p) @ parse_decimal_number src"
                    "parse_decimal_number (c # p) = []"
                  by simp_all
                have e: "next_token src
                           = make_token Token_Number src (parse_decimal_number src)"
                  using Cons nl ws comma hash quote True
                  by (subst next_token.simps) (simp only: list.case if_False if_True simp_thms)
                have "take (length src - length (parse_decimal_number src)) src = c # p"
                  by (rule take_prefix [OF pre(1)])
                then show ?thesis
                  unfolding e content_make_token
                  using True hash pre(2) by (simp add: lexer_numeric_slice_def)
              next
                case num: False
                show ?thesis
                proof (cases "isalpha_c c")
                  case True
                  from identifier_split [of r] obtain pre
                    where pre: "r = pre @ lex_identifier r" "list_all isalnum_c pre" by blast
                  have t: "take (length src - length (lex_identifier r)) src = c # pre"
                    using take_prefix [of src "c # pre" "lex_identifier r"] pre(1) Cons by simp
                  have e: "next_token src
                     = make_token
                         (identifier_kind (take (length src - length (lex_identifier r)) src))
                         src (lex_identifier r)"
                    using Cons nl ws comma hash quote num True
                    by (subst next_token.simps) (simp only: list.case if_False if_True simp_thms)
                  from "1.prems" have "may_be_valid_immediate_number (c # pre)"
                    unfolding e kind_make_token t
                    using immediate_identifier [of "c # pre"] by blast
                  then show ?thesis
                    unfolding e content_make_token t
                    using hash num True pre(2)
                    by (simp add: lexer_numeric_slice_def isalnum_c_def)
                next
                  case alpha: False
                  show ?thesis
                  proof (cases "c = CHR ''.''")
                    case True
                    have "next_token src
                      = make_token
                          (if is_valid_pseudo
                                (take (length src - length (lex_identifier r)) src)
                           then Token_Pseudo else Token_Unknown)
                          src (lex_identifier r)"
                      using Cons nl ws comma hash quote num alpha True
                      by (subst next_token.simps) (simp only: list.case if_False if_True simp_thms)
                    with "1.prems" show ?thesis
                      by (auto simp: kind_make_token split: if_splits)
                  next
                    case dot: False
                    show ?thesis
                    proof (cases "c = CHR '';''")
                      case True
                      have e: "next_token src = next_token (consume_comment r)"
                        using Cons nl ws comma hash quote num alpha dot True
                        by (subst next_token.simps) (simp only: list.case if_False if_True simp_thms)
                      from "1.IH"(2) [OF Cons nl ws comma hash quote num alpha dot True]
                        "1.prems"
                      show ?thesis unfolding e .
                    next
                      case False
                      have "next_token src = make_token Token_Unknown src r"
                        using Cons nl ws comma hash quote num alpha dot False
                        by (subst next_token.simps) (simp only: list.case if_False if_True simp_thms)
                      with "1.prems" show ?thesis by (simp add: kind_make_token)
                    qed
                  qed
                qed
              qed
            qed
          qed
        qed
      qed
    qed
  qed
qed



end
